theory Spec2Isabelle
  imports Complex_Main
begin

section \<open>Python values\<close>

text \<open>
  A Python \<^verbatim>\<open>str\<close> is a sequence of Unicode code points. Literals of the source are
  written with \<open>lit\<close>; a character outside ASCII is given by its code point
  (\<open>CHR 0xE9\<close> is the letter e with an acute accent).
\<close>

type_synonym pystr = "nat list"

definition lit :: "string \<Rightarrow> pystr" where
  "lit s = map of_char s"

text \<open>The exceptions the modelled code raises, each with its message.\<close>

datatype py_error =
    ValueError pystr
  | FileNotFoundError pystr
  | AssertionError pystr
  | TypeError pystr
  | AttributeError pystr
  | KeyError pystr
  | ValidationError pystr
  | OtherError pystr

text \<open>
  A Python \<^verbatim>\<open>dict\<close> keeps its keys unique and in insertion order: an association
  list. \<open>dict_set\<close> is \<^verbatim>\<open>d[k] = v\<close>: a key already present keeps its position.
\<close>

fun dict_set :: "('k \<times> 'v) list \<Rightarrow> 'k \<Rightarrow> 'v \<Rightarrow> ('k \<times> 'v) list" where
  "dict_set [] k v = [(k, v)]"
| "dict_set ((k', v') # d) k v =
     (if k' = k then (k', v) # d else (k', v') # dict_set d k v)"

definition dict_keys :: "('k \<times> 'v) list \<Rightarrow> 'k list" where
  "dict_keys d = map fst d"

text \<open>
  JSON-like data read by value: scalars, lists and mappings. The projection into tables
  only reads its input, so it is modelled over these trees.
\<close>

datatype jvalue =
    JNull
  | JBool bool
  | JInt int
  | JFloat real
  | JStr pystr
  | JList "jvalue list"
  | JDict "(pystr \<times> jvalue) list"

text \<open>
  The merge of \<^verbatim>\<open>DataExtractor.extract_data\<close> calls \<^verbatim>\<open>extend\<close> and
  \<^verbatim>\<open>append\<close> on list objects, so there lists and mappings are objects in a store and a
  value is a scalar or a reference to an object. The store is a list of objects, an
  address is an index into it, and allocation appends.
\<close>

type_synonym addr = nat

datatype pyval =
    PNone
  | PBool bool
  | PInt int
  | PFloat real
  | PStr pystr
  | PRef addr

datatype pyobj =
    OList "pyval list"
  | ODict "(pystr \<times> pyval) list"

type_synonym heap = "pyobj list"

definition heap_get :: "heap \<Rightarrow> addr \<Rightarrow> pyobj option" where
  "heap_get h a = (if a < length h then Some (h ! a) else None)"

definition alloc :: "heap \<Rightarrow> pyobj \<Rightarrow> heap \<times> addr" where
  "alloc h ob = (h @ [ob], length h)"

text \<open>\<^verbatim>\<open>isinstance(v, list)\<close>, giving the address and the elements of the list.\<close>

definition as_list :: "heap \<Rightarrow> pyval \<Rightarrow> (addr \<times> pyval list) option" where
  "as_list h v =
     (case v of
        PRef a \<Rightarrow> (case heap_get h a of Some (OList xs) \<Rightarrow> Some (a, xs) | _ \<Rightarrow> None)
      | _ \<Rightarrow> None)"

text \<open>
  Reading a value out of the store, as the tree it denotes. The fuel bounds the depth
  (a store can hold a list that contains itself); \<open>None\<close> is fuel exhausted or a
  dangling reference.
\<close>

fun reify :: "nat \<Rightarrow> heap \<Rightarrow> pyval \<Rightarrow> jvalue option" where
  "reify 0 h v = None"
| "reify (Suc n) h PNone = Some JNull"
| "reify (Suc n) h (PBool b) = Some (JBool b)"
| "reify (Suc n) h (PInt i) = Some (JInt i)"
| "reify (Suc n) h (PFloat r) = Some (JFloat r)"
| "reify (Suc n) h (PStr s) = Some (JStr s)"
| "reify (Suc n) h (PRef a) =
     (case heap_get h a of
        None \<Rightarrow> None
      | Some (OList vs) \<Rightarrow> map_option JList (those (map (reify n h) vs))
      | Some (ODict kvs) \<Rightarrow>
          map_option (\<lambda>js. JDict (zip (map fst kvs) js))
            (those (map (\<lambda>kv. reify n h (snd kv)) kvs)))"

definition reify_dict :: "nat \<Rightarrow> heap \<Rightarrow> (pystr \<times> pyval) list \<Rightarrow> jvalue option" where
  "reify_dict n h kvs =
     map_option (\<lambda>js. JDict (zip (map fst kvs) js))
       (those (map (\<lambda>kv. reify n h (snd kv)) kvs))"

section \<open>models.py\<close>

text \<open>
  The three pydantic models. \<open>ocr_contents\<close> and \<open>extracted_data\<close> are annotated
  \<^verbatim>\<open>dict\<close>; the type parameter is the representation of that content (entries whose
  values live in the store for the merge, a tree for the projection).
\<close>

record 'd StructuredOCR =
  file_name :: pystr
  ocr_contents :: 'd

record 'd PDFPage =
  page_number :: int
  image_path :: pystr
  ocr_data :: "'d StructuredOCR option"

record 'd ExtractionResult =
  pdf_file :: pystr
  prompt_name :: pystr
  extracted_data :: 'd

type_synonym entries = "(pystr \<times> pyval) list"

section \<open>data\_extractor.py\<close>

text \<open>
  What \<^verbatim>\<open>OCRProcessor.process_pdf_pages\<close> returns: the pages processed one by one, or
  one combined record.
\<close>

datatype 'd processed =
    Pages "'d PDFPage list"
  | Combined "'d StructuredOCR"

text \<open>
  The processor held by a \<^verbatim>\<open>DataExtractor\<close> acts on the store and on the pages it is
  given (it assigns their \<^verbatim>\<open>ocr_data\<close>) and returns a result or raises.
\<close>

type_synonym processor =
  "heap \<Rightarrow> entries PDFPage list \<Rightarrow> pystr \<Rightarrow>
     py_error + (heap \<times> entries PDFPage list \<times> entries processed)"

record DataExtractor =
  prompts :: "(pystr \<times> pystr) list"
  ocr_processor :: "processor option"

definition get_available_prompts :: "DataExtractor \<Rightarrow> pystr list" where
  "get_available_prompts self = dict_keys (prompts self)"

text \<open>One iteration of the inner loop, lines 100 to 112: the store and \<^verbatim>\<open>extracted_data\<close>.\<close>

fun merge_item :: "heap \<times> entries \<Rightarrow> pystr \<times> pyval \<Rightarrow> heap \<times> entries" where
  "merge_item (h, ed) (key, val) =
     (case map_of ed key of
        Some cur \<Rightarrow>
          (case as_list h cur of
             Some (a, xs) \<Rightarrow>
               (case as_list h val of
                  Some (b, ys) \<Rightarrow> (h[a := OList (xs @ ys)], ed)
                | None \<Rightarrow> (h[a := OList (xs @ [val])], ed))
           | None \<Rightarrow>
               (let (h', n) = alloc h (OList [cur, val])
                in (h', dict_set ed key (PRef n))))
      | None \<Rightarrow> (h, dict_set ed key val))"

text \<open>The body of the outer loop: a page without \<^verbatim>\<open>ocr_data\<close> is skipped.\<close>

definition merge_page :: "heap \<times> entries \<Rightarrow> entries PDFPage \<Rightarrow> heap \<times> entries" where
  "merge_page st page =
     (case ocr_data page of
        None \<Rightarrow> st
      | Some rec \<Rightarrow> foldl merge_item st (ocr_contents rec))"

definition merge_pages :: "heap \<Rightarrow> entries PDFPage list \<Rightarrow> heap \<times> entries" where
  "merge_pages h pdf_pages = foldl merge_page (h, []) pdf_pages"

definition prompt_missing :: "pystr \<Rightarrow> pystr" where
  "prompt_missing name = lit (''Le prompt '' @ [CHR 0x27]) @ name @ lit ([CHR 0x27] @ '' n'existe pas'')"

text \<open>
  \<^verbatim>\<open>extract_data\<close>. It returns the store and the pages as the call leaves them, with the
  result.
\<close>

definition fallback ::
  "heap \<Rightarrow> entries PDFPage list \<Rightarrow> pystr \<Rightarrow> pystr \<Rightarrow>
     heap \<times> entries PDFPage list \<times> entries ExtractionResult" where
  "fallback h pdf_pages name file =
     (let (h', ed) = merge_pages h pdf_pages
      in (h', pdf_pages, \<lparr>pdf_file = file, prompt_name = name, extracted_data = ed\<rparr>))"

definition extract_data ::
  "DataExtractor \<Rightarrow> heap \<Rightarrow> entries PDFPage list \<Rightarrow> pystr \<Rightarrow> pystr \<Rightarrow>
     py_error + (heap \<times> entries PDFPage list \<times> entries ExtractionResult)" where
  "extract_data self h pdf_pages name file =
     (if name \<notin> set (dict_keys (prompts self)) then Inl (ValueError (prompt_missing name))
      else
        (case ocr_processor self of
           None \<Rightarrow> Inr (fallback h pdf_pages name file)
         | Some process_pdf_pages \<Rightarrow>
             (case process_pdf_pages h pdf_pages name of
                Inl e \<Rightarrow> Inl e
              | Inr (h', pages', Combined result) \<Rightarrow>
                  Inr (h', pages',
                       \<lparr>pdf_file = file, prompt_name = name,
                        extracted_data = ocr_contents result\<rparr>)
              | Inr (h', pages', Pages _) \<Rightarrow> Inr (fallback h' pages' name file))))"

text \<open>
  The keys in the order in which they are first seen: \<open>see\<close> is one step of the scan.
\<close>

definition see :: "'a list \<Rightarrow> 'a \<Rightarrow> 'a list" where
  "see acc x = (if x \<in> set acc then acc else acc @ [x])"

definition first_appearance :: "'a list \<Rightarrow> 'a list" where
  "first_appearance xs = foldl see [] xs"

definition page_items :: "entries PDFPage \<Rightarrow> entries" where
  "page_items page = (case ocr_data page of None \<Rightarrow> [] | Some rec \<Rightarrow> ocr_contents rec)"

definition page_keys :: "entries PDFPage \<Rightarrow> pystr list" where
  "page_keys page = dict_keys (page_items page)"

text \<open>The call merges the pages itself: there is no processor, or it returned the pages.\<close>

definition no_combined ::
  "DataExtractor \<Rightarrow> heap \<Rightarrow> entries PDFPage list \<Rightarrow> pystr \<Rightarrow> bool" where
  "no_combined self h pdf_pages name =
     (case ocr_processor self of
        None \<Rightarrow> True
      | Some process_pdf_pages \<Rightarrow>
          (case process_pdf_pages h pdf_pages name of
             Inr (_, _, Pages _) \<Rightarrow> True
           | _ \<Rightarrow> False))"

section \<open>models.py: construction\<close>

text \<open>
  pydantic validates the arguments of a constructor against the annotations. None of the
  fields carries a constraint. \<^verbatim>\<open>PDFPage\<close> is built from an \<^verbatim>\<open>int\<close> and a \<^verbatim>\<open>str\<close>, as
  \<^verbatim>\<open>PDFProcessor.convert_pdf_to_images\<close> does; \<^verbatim>\<open>ocr_data\<close> takes its default. For a
  field annotated \<^verbatim>\<open>dict\<close> a mapping is accepted and every other JSON-like value is
  rejected; for a field annotated \<^verbatim>\<open>str\<close> a string is accepted. Of the message of a
  validation error the model keeps the line that says what was expected.
\<close>

definition not_a_dict :: pystr where
  "not_a_dict = lit ''Input should be a valid dictionary''"

definition not_a_str :: pystr where
  "not_a_str = lit ''Input should be a valid string''"

definition validate_dict :: "jvalue \<Rightarrow> py_error + jvalue" where
  "validate_dict v = (case v of JDict d \<Rightarrow> Inr (JDict d) | _ \<Rightarrow> Inl (ValidationError not_a_dict))"

definition validate_str :: "jvalue \<Rightarrow> py_error + pystr" where
  "validate_str v = (case v of JStr s \<Rightarrow> Inr s | _ \<Rightarrow> Inl (ValidationError not_a_str))"

definition new_StructuredOCR :: "pystr \<Rightarrow> jvalue \<Rightarrow> py_error + jvalue StructuredOCR" where
  "new_StructuredOCR name contents =
     (case validate_dict contents of
        Inl e \<Rightarrow> Inl e
      | Inr d \<Rightarrow> Inr \<lparr>file_name = name, ocr_contents = d\<rparr>)"

definition new_PDFPage :: "int \<Rightarrow> pystr \<Rightarrow> py_error + jvalue PDFPage" where
  "new_PDFPage n path = Inr \<lparr>page_number = n, image_path = path, ocr_data = None\<rparr>"

definition new_ExtractionResult ::
  "jvalue \<Rightarrow> pystr \<Rightarrow> jvalue \<Rightarrow> py_error + jvalue ExtractionResult" where
  "new_ExtractionResult file name data =
     (case validate_str file of
        Inl e \<Rightarrow> Inl e
      | Inr f \<Rightarrow>
          (case validate_dict data of
             Inl e \<Rightarrow> Inl e
           | Inr d \<Rightarrow> Inr \<lparr>pdf_file = f, prompt_name = name, extracted_data = d\<rparr>))"

section \<open>json\_to\_dataframe.py\<close>

subsection \<open>The tables of pandas\<close>

text \<open>
  A \<^verbatim>\<open>DataFrame\<close> as the code uses it: the number of rows and the columns in order, each
  with one cell per row. A cell holds the value pandas has stored; \<open>None\<close> is the missing
  value pandas fills in when a record has no entry for a column.
\<close>

type_synonym cell = "jvalue option"

record dataframe =
  index_len :: nat
  cols :: "(pystr \<times> cell list) list"

type_synonym tables = "(pystr \<times> dataframe) list"

definition empty_frame :: dataframe where
  "empty_frame = \<lparr>index_len = 0, cols = []\<rparr>"

definition is_dict :: "jvalue \<Rightarrow> bool" where
  "is_dict v = (case v of JDict _ \<Rightarrow> True | _ \<Rightarrow> False)"

definition is_jlist :: "jvalue \<Rightarrow> bool" where
  "is_jlist v = (case v of JList _ \<Rightarrow> True | _ \<Rightarrow> False)"

definition is_str :: "jvalue \<Rightarrow> bool" where
  "is_str v = (case v of JStr _ \<Rightarrow> True | _ \<Rightarrow> False)"

definition items_of :: "jvalue \<Rightarrow> (pystr \<times> jvalue) list" where
  "items_of v = (case v of JDict d \<Rightarrow> d | _ \<Rightarrow> [])"

text \<open>The name of the type of a value, as \<^verbatim>\<open>type(v).__name__\<close> gives it.\<close>

definition type_name :: "jvalue \<Rightarrow> string" where
  "type_name v =
     (case v of
        JNull \<Rightarrow> ''NoneType''
      | JBool _ \<Rightarrow> ''bool''
      | JInt _ \<Rightarrow> ''int''
      | JFloat _ \<Rightarrow> ''float''
      | JStr _ \<Rightarrow> ''str''
      | JList _ \<Rightarrow> ''list''
      | JDict _ \<Rightarrow> ''dict'')"

definition no_attribute :: "jvalue \<Rightarrow> string \<Rightarrow> pystr" where
  "no_attribute v name =
     lit ([CHR 0x27] @ type_name v @ [CHR 0x27] @ '' object has no attribute ''
          @ [CHR 0x27] @ name @ [CHR 0x27])"

definition length_mismatch :: pystr where
  "length_mismatch = lit ''Length of values does not match length of index''"

definition arrays_length :: pystr where
  "arrays_length = lit ''All arrays must be of the same length''"

text \<open>
  Two things pandas does depend on its version and on the platform, and are parameters of
  the model. One is the dtype it infers for a column of scalars and what it then stores for
  each value: \<^verbatim>\<open>coerce pd cells v\<close> is what is stored for the value \<^verbatim>\<open>v\<close> in a column of
  the values \<^verbatim>\<open>cells\<close>. An integer beside a missing entry or a float is stored as the
  nearest \<^verbatim>\<open>float64\<close>, and \<^verbatim>\<open>None\<close> may be stored as the missing value. What is stored
  is a scalar again, or missing. The other is what it makes of an element of a list of
  records that is not a mapping: it raises, or reads the element as a record (the empty
  string as the empty record).
\<close>

datatype stored =
    SNone
  | SBool bool
  | SInt int
  | SFloat real
  | SStr pystr

fun value_of :: "stored \<Rightarrow> jvalue" where
  "value_of SNone = JNull"
| "value_of (SBool b) = JBool b"
| "value_of (SInt i) = JInt i"
| "value_of (SFloat r) = JFloat r"
| "value_of (SStr s) = JStr s"

record pandas =
  coerce :: "cell list \<Rightarrow> jvalue \<Rightarrow> stored option"
  non_mapping :: "jvalue \<Rightarrow> py_error + (pystr \<times> jvalue) list"

definition nested :: "cell \<Rightarrow> bool" where
  "nested c = (case c of None \<Rightarrow> False | Some v \<Rightarrow> is_jlist v \<or> is_dict v)"

text \<open>
  What pandas stores for the values of a column. A column that holds a list or a mapping has
  the dtype \<^verbatim>\<open>object\<close> and keeps its values, and a single value is stored as it is; every
  other column goes through the inference.
\<close>

definition convert_cell :: "pandas \<Rightarrow> cell list \<Rightarrow> cell \<Rightarrow> cell" where
  "convert_cell pd cells c =
     (case c of
        None \<Rightarrow> None
      | Some v \<Rightarrow> map_option value_of (coerce pd cells v))"

definition convert_column :: "pandas \<Rightarrow> cell list \<Rightarrow> cell list" where
  "convert_column pd cells =
     (if length cells \<le> 1 \<or> list_ex nested cells then cells
      else map (convert_cell pd cells) cells)"

definition record_of :: "pandas \<Rightarrow> jvalue \<Rightarrow> py_error + (pystr \<times> jvalue) list" where
  "record_of pd v = (case v of JDict d \<Rightarrow> Inr d | _ \<Rightarrow> non_mapping pd v)"

fun records_in :: "pandas \<Rightarrow> jvalue list \<Rightarrow> py_error + (pystr \<times> jvalue) list list" where
  "records_in pd [] = Inr []"
| "records_in pd (v # vs) =
     (case record_of pd v of
        Inl e \<Rightarrow> Inl e
      | Inr r \<Rightarrow>
          (case records_in pd vs of
             Inl e \<Rightarrow> Inl e
           | Inr rs \<Rightarrow> Inr (r # rs)))"

text \<open>
  \<^verbatim>\<open>pd.DataFrame(records)\<close> for a list whose first element is a mapping: pandas reads
  every element as a record. The columns are the keys in the order first seen, one row per
  record.
\<close>

definition frame_of_records :: "pandas \<Rightarrow> jvalue list \<Rightarrow> py_error + dataframe" where
  "frame_of_records pd recs =
     (case records_in pd recs of
        Inl e \<Rightarrow> Inl e
      | Inr rs \<Rightarrow>
          Inr \<lparr>index_len = length rs,
               cols = map (\<lambda>c. (c, convert_column pd (map (\<lambda>r. map_of r c) rs)))
                        (first_appearance (concat (map dict_keys rs)))\<rparr>)"

text \<open>
  \<^verbatim>\<open>df[key] = values\<close>: a frame without rows takes the length of the values as its number
  of rows; otherwise the lengths must agree. A column of that name is replaced in place,
  a new one goes last.
\<close>

definition frame_setitem ::
  "pandas \<Rightarrow> dataframe \<Rightarrow> pystr \<Rightarrow> cell list \<Rightarrow> py_error + dataframe" where
  "frame_setitem pd df key vals =
     (let df1 = (if index_len df = 0 \<and> vals \<noteq> []
                 then \<lparr>index_len = length vals,
                       cols = map (\<lambda>(c, _). (c, replicate (length vals) None)) (cols df)\<rparr>
                 else df)
      in if length vals \<noteq> index_len df1 then Inl (ValueError length_mismatch)
         else Inr (df1\<lparr>cols := dict_set (cols df1) key (convert_column pd vals)\<rparr>))"

text \<open>\<^verbatim>\<open>pd.DataFrame(columns)\<close> for a mapping from column name to a list of cells.\<close>

definition frame_of_columns ::
  "pandas \<Rightarrow> (pystr \<times> cell list) list \<Rightarrow> py_error + dataframe" where
  "frame_of_columns pd cs =
     (case cs of
        [] \<Rightarrow> Inr empty_frame
      | (c, xs) # rest \<Rightarrow>
          (if list_all (\<lambda>(_, ys). length ys = length xs) rest
           then Inr \<lparr>index_len = length xs,
                     cols = map (\<lambda>(c, ys). (c, convert_column pd ys)) cs\<rparr>
           else Inl (ValueError arrays_length)))"

subsection \<open>create\_dataframe\_from\_extraction\_result\<close>

definition general_label :: pystr where
  "general_label = lit (''Informations g'' @ [CHR 0xE9] @ ''n'' @ [CHR 0xE9] @ ''rales'')"

definition error_label :: pystr where
  "error_label = lit ''Erreur''"

definition placeholder :: "(pystr \<times> jvalue) list" where
  "placeholder =
     [(lit ''Message'',
       JStr (lit (''Aucune donn'' @ [CHR 0xE9] @ ''e extraite ou format incorrect'')))]"

text \<open>The truth value Python gives to a value, for \<^verbatim>\<open>not extracted_data\<close>.\<close>

definition truthy :: "jvalue \<Rightarrow> bool" where
  "truthy v =
     (case v of
        JNull \<Rightarrow> False
      | JBool b \<Rightarrow> b
      | JInt i \<Rightarrow> i \<noteq> 0
      | JFloat r \<Rightarrow> r \<noteq> 0
      | JStr s \<Rightarrow> s \<noteq> []
      | JList xs \<Rightarrow> xs \<noteq> []
      | JDict d \<Rightarrow> d \<noteq> [])"

text \<open>The test of line 47: a non-empty list whose first element is a mapping.\<close>

definition is_record_list :: "jvalue \<Rightarrow> bool" where
  "is_record_list v = (case v of JList (x # _) \<Rightarrow> is_dict x | _ \<Rightarrow> False)"

definition elements_of :: "jvalue \<Rightarrow> jvalue list" where
  "elements_of v = (case v of JList xs \<Rightarrow> xs | _ \<Rightarrow> [])"

text \<open>The body of the loop of lines 45 to 62, on the mapping \<^verbatim>\<open>dataframes\<close>.\<close>

definition project_item ::
  "pandas \<Rightarrow> tables \<Rightarrow> pystr \<times> jvalue \<Rightarrow> py_error + tables" where
  "project_item pd dfs kv =
     (let key = fst kv; val = snd kv
      in if is_record_list val then
           (case frame_of_records pd (elements_of val) of
              Inl e \<Rightarrow> Inl e
            | Inr df \<Rightarrow> Inr (dict_set dfs key df))
         else if is_dict val then
           (case frame_of_records pd [val] of
              Inl e \<Rightarrow> Inl e
            | Inr df \<Rightarrow> Inr (dict_set dfs key df))
         else
           (let dfs1 = (if general_label \<notin> set (dict_keys dfs)
                        then dict_set dfs general_label empty_frame else dfs)
            in case map_of dfs1 general_label of
                 None \<Rightarrow> Inl (KeyError general_label)
               | Some g \<Rightarrow>
                   (case frame_setitem pd g key [Some val] of
                      Inl e \<Rightarrow> Inl e
                    | Inr g' \<Rightarrow> Inr (dict_set dfs1 general_label g'))))"

fun project_items ::
  "pandas \<Rightarrow> tables \<Rightarrow> (pystr \<times> jvalue) list \<Rightarrow> py_error + tables" where
  "project_items pd dfs [] = Inr dfs"
| "project_items pd dfs (kv # kvs) =
     (case project_item pd dfs kv of
        Inl e \<Rightarrow> Inl e
      | Inr dfs' \<Rightarrow> project_items pd dfs' kvs)"

definition create_dataframe_from_extraction_result ::
  "pandas \<Rightarrow> jvalue ExtractionResult \<Rightarrow> py_error + tables" where
  "create_dataframe_from_extraction_result pd extraction_result =
     (let data = extracted_data extraction_result
      in if \<not> truthy data \<or> is_str data then
           (case frame_of_records pd [JDict placeholder] of
              Inl e \<Rightarrow> Inl e
            | Inr df \<Rightarrow> Inr [(error_label, df)])
         else if \<not> is_dict data then Inl (AttributeError (no_attribute data ''items''))
         else
           (case project_items pd [] (items_of data) of
              Inl e \<Rightarrow> Inl e
            | Inr dfs \<Rightarrow>
                if dfs = [] then
                  (let simple_data =
                         map (\<lambda>(k, v). (k, [Some v]))
                           (filter (\<lambda>(k, v). \<not> is_jlist v \<and> \<not> is_dict v) (items_of data))
                   in if simple_data \<noteq> [] then
                        (case frame_of_columns pd simple_data of
                           Inl e \<Rightarrow> Inl e
                         | Inr df \<Rightarrow> Inr (dict_set dfs general_label df))
                      else Inr dfs)
                else Inr dfs))"

subsection \<open>extract\_dataframes\_from\_ocr\_json\<close>

text \<open>
  The argument is a \<^verbatim>\<open>StructuredOCR\<close>, an \<^verbatim>\<open>ExtractionResult\<close> or any other Python
  value, a mapping among them.
\<close>

datatype ocr_result =
    OfStructuredOCR "jvalue StructuredOCR"
  | OfExtractionResult "jvalue ExtractionResult"
  | OfValue jvalue

definition unsupported :: "jvalue \<Rightarrow> pystr" where
  "unsupported v =
     lit (''Type de r'' @ [CHR 0xE9] @ ''sultat OCR non pris en charge: <class ''
          @ [CHR 0x27] @ type_name v @ [CHR 0x27] @ ''>'')"

definition extract_dataframes_from_ocr_json ::
  "pandas \<Rightarrow> ocr_result \<Rightarrow> py_error + tables" where
  "extract_dataframes_from_ocr_json pd res =
     (case
        (case res of
           OfStructuredOCR rec \<Rightarrow>
             new_ExtractionResult (JStr (lit ''document.pdf'')) (lit ''default'')
               (ocr_contents rec)
         | OfExtractionResult er \<Rightarrow> Inr er
         | OfValue v \<Rightarrow>
             (if is_dict v then
                (if lit ''file_name'' \<in> set (dict_keys (items_of v))
                    \<and> lit ''ocr_contents'' \<in> set (dict_keys (items_of v))
                 then
                   (case (map_of (items_of v) (lit ''file_name''),
                          map_of (items_of v) (lit ''ocr_contents'')) of
                      (Some f, Some c) \<Rightarrow> new_ExtractionResult f (lit ''default'') c
                    | _ \<Rightarrow> Inl (KeyError (lit ''ocr_contents'')))
                 else new_ExtractionResult (JStr (lit ''document.pdf'')) (lit ''default'') v)
              else Inl (TypeError (unsupported v))))
      of
        Inl e \<Rightarrow> Inl e
      | Inr er \<Rightarrow> create_dataframe_from_extraction_result pd er)"

subsection \<open>export\_dataframe: the name of the file\<close>

text \<open>
  \<^verbatim>\<open>str.isalnum\<close> and \<^verbatim>\<open>str.lower\<close> follow the Unicode character database. Below
  U+0100 they are written out here; above, they are parameters of the model
  (\<^verbatim>\<open>str.lower\<close> as a function of the whole string, since Python lowers a capital sigma
  by its position in the word).
\<close>

definition latin1_isalnum :: "nat \<Rightarrow> bool" where
  "latin1_isalnum c =
     ((48 \<le> c \<and> c \<le> 57) \<or> (65 \<le> c \<and> c \<le> 90) \<or> (97 \<le> c \<and> c \<le> 122)
      \<or> c = 170 \<or> c = 178 \<or> c = 179 \<or> c = 181 \<or> c = 185 \<or> c = 186
      \<or> (188 \<le> c \<and> c \<le> 190)
      \<or> (192 \<le> c \<and> c \<le> 255 \<and> c \<noteq> 215 \<and> c \<noteq> 247))"

definition latin1_lower :: "nat \<Rightarrow> nat" where
  "latin1_lower c =
     (if (65 \<le> c \<and> c \<le> 90) \<or> (192 \<le> c \<and> c \<le> 222 \<and> c \<noteq> 215) then c + 32 else c)"

definition isalnum :: "(nat \<Rightarrow> bool) \<Rightarrow> nat \<Rightarrow> bool" where
  "isalnum beyond c = (if c < 256 then latin1_isalnum c else beyond c)"

definition lower :: "(pystr \<Rightarrow> pystr) \<Rightarrow> pystr \<Rightarrow> pystr" where
  "lower beyond s = (if list_all (\<lambda>c. c < 256) s then map latin1_lower s else beyond s)"

text \<open>\<^verbatim>\<open>s.replace(" ", "_")\<close>, character by character.\<close>

definition replace_spaces :: "pystr \<Rightarrow> pystr" where
  "replace_spaces s = map (\<lambda>c. if c = 32 then 95 else c) s"

text \<open>Lines 136 and 137: \<^verbatim>\<open>safe_name\<close>.\<close>

definition safe_name :: "(nat \<Rightarrow> bool) \<Rightarrow> (pystr \<Rightarrow> pystr) \<Rightarrow> pystr \<Rightarrow> pystr" where
  "safe_name alnum_above lower_above name =
     lower lower_above
       (replace_spaces
          (map (\<lambda>c. if isalnum alnum_above c \<or> c \<in> set (lit '' _-'') then c else 95) name))"

text \<open>The characters the name of a file is to be made of.\<close>

definition lowercase_letter :: "nat \<Rightarrow> bool" where
  "lowercase_letter c =
     ((97 \<le> c \<and> c \<le> 122) \<or> c = 181 \<or> (223 \<le> c \<and> c \<le> 255 \<and> c \<noteq> 247))"

definition digit :: "nat \<Rightarrow> bool" where
  "digit c = (48 \<le> c \<and> c \<le> 57)"

definition name_char :: "nat \<Rightarrow> bool" where
  "name_char c = (lowercase_letter c \<or> digit c \<or> c = 95 \<or> c = 45)"

definition pieces_designations :: pystr where
  "pieces_designations =
     lit (''Pi'' @ [CHR 0xE8] @ ''ces / D'' @ [CHR 0xE9] @ ''signations'')"

section \<open>ocr\_processor.py\<close>

text \<open>
  What lies outside the program: the prompt files of the processor's directory (by prompt
  name, \<open>None\<close> when \<^verbatim>\<open><name>.md\<close> is not there), the image files, the two calls of the
  Mistral client and the path functions of \<^verbatim>\<open>pathlib\<close>: \<open>path_name p\<close> is
  \<^verbatim>\<open>Path(p).name\<close> and \<open>path_str p\<close> is \<^verbatim>\<open>str(Path(p))\<close>, which prints
  \<^verbatim>\<open>./prompt_extraction\<close> as \<^verbatim>\<open>prompt_extraction\<close>. The records a call of the client
  returns refer to objects it has put in the store. Output printed with \<^verbatim>\<open>print\<close> is not
  part of the model.
\<close>

record world =
  prompt_files :: "pystr \<Rightarrow> pystr option"
  is_file :: "pystr \<Rightarrow> bool"
  read_base64 :: "pystr \<Rightarrow> py_error + pystr"
  ocr_markdown :: "pystr \<Rightarrow> py_error + pystr"
  chat_parse :: "heap \<Rightarrow> pystr \<Rightarrow> pystr \<Rightarrow> py_error + (heap \<times> entries StructuredOCR)"
  path_name :: "pystr \<Rightarrow> pystr"
  path_str :: "pystr \<Rightarrow> pystr"

text \<open>The directory as the constructor is given it; the object holds it as a \<^verbatim>\<open>Path\<close>.\<close>

record OCRProcessor =
  prompt_dir :: pystr

text \<open>\<^verbatim>\<open>str(e)\<close> for an exception.\<close>

fun message :: "py_error \<Rightarrow> pystr" where
  "message (ValueError m) = m"
| "message (FileNotFoundError m) = m"
| "message (AssertionError m) = m"
| "message (TypeError m) = m"
| "message (AttributeError m) = m"
| "message (KeyError m) = m"
| "message (ValidationError m) = m"
| "message (OtherError m) = m"

text \<open>\<^verbatim>\<open>str(n)\<close> for an integer, and \<^verbatim>\<open>sep.join(xs)\<close>.\<close>

fun digits :: "nat \<Rightarrow> pystr" where
  "digits n = (if n < 10 then [48 + n] else digits (n div 10) @ [48 + n mod 10])"

definition str_int :: "int \<Rightarrow> pystr" where
  "str_int i = (if i < 0 then 45 # digits (nat (- i)) else digits (nat i))"

fun join :: "pystr \<Rightarrow> pystr list \<Rightarrow> pystr" where
  "join sep [] = []"
| "join sep [x] = x"
| "join sep (x # y # ys) = x @ sep @ join sep (y # ys)"

definition extraction_prompt_missing :: "pystr \<Rightarrow> pystr \<Rightarrow> pystr" where
  "extraction_prompt_missing name dir =
     lit (''Le prompt d'extraction '' @ [CHR 0x27]) @ name
       @ lit ([CHR 0x27] @ '' n'existe pas dans '') @ dir"

definition get_extraction_prompt :: "world \<Rightarrow> OCRProcessor \<Rightarrow> pystr \<Rightarrow> py_error + pystr" where
  "get_extraction_prompt w self name =
     (case prompt_files w name of
        None \<Rightarrow>
          Inl (FileNotFoundError
                 (extraction_prompt_missing name (path_str w (prompt_dir self))))
      | Some text \<Rightarrow> Inr text)"

definition instruction :: "pystr \<Rightarrow> pystr" where
  "instruction prompt =
     lit (''Extrait les champs suivants dans une r'' @ [CHR 0xE9]
          @ ''ponse au format JSON et s'' @ [CHR 0xE9]
          @ ''lectionne dans les champs les informations qui correspondent ''
          @ [CHR 0xE0] @ '' l'exemple:'')
       @ [10] @ prompt @ [10] @ lit ''.''"

text \<open>
  Lines 103 to 106 and 184 to 187: the instruction text for a prompt name. A missing
  prompt file is caught and leaves the text empty; any other exception goes on.
\<close>

definition fields_extraction_text :: "world \<Rightarrow> OCRProcessor \<Rightarrow> pystr \<Rightarrow> py_error + pystr" where
  "fields_extraction_text w self name =
     (case get_extraction_prompt w self name of
        Inl (FileNotFoundError m) \<Rightarrow> Inr []
      | Inl e \<Rightarrow> Inl e
      | Inr text \<Rightarrow> Inr (instruction text))"

definition data_url :: "pystr \<Rightarrow> pystr" where
  "data_url encoded = lit ''data:image/jpeg;base64,'' @ encoded"

definition to_json :: pystr where
  "to_json =
     lit (''en une r'' @ [CHR 0xE9] @ ''ponse structur'' @ [CHR 0xE9]
          @ ''e au format JSON avec le contenu de l'OCR dans un dictionnaire sens''
          @ [CHR 0xE9] @ ''. '')"

definition image_request :: "pystr \<Rightarrow> pystr \<Rightarrow> pystr" where
  "image_request markdown instr =
     lit ''Ceci est l'OCR de l'image au format markdown:'' @ [10] @ markdown @ [10]
       @ lit ''.'' @ [10] @ lit ''Converti la '' @ to_json @ instr"

definition document_request :: "pystr \<Rightarrow> pystr \<Rightarrow> pystr" where
  "document_request markdown instr =
     lit ''Voici l'OCR complet d'un document de plusieurs pages:'' @ [10] @ markdown @ [10]
       @ lit ''.'' @ [10] @ lit ''Converti cela '' @ to_json @ instr"

definition error_record :: "world \<Rightarrow> pystr \<Rightarrow> py_error \<Rightarrow> entries StructuredOCR" where
  "error_record w path e =
     \<lparr>file_name = path_name w path,
      ocr_contents =
        [(lit ''error'', PStr (message e)),
         (lit ''file'', PStr (path_str w path)),
         (lit ''message'', PStr (lit ''Erreur lors du traitement OCR''))]\<rparr>"

definition structured_ocr ::
  "world \<Rightarrow> OCRProcessor \<Rightarrow> heap \<Rightarrow> pystr \<Rightarrow> pystr option \<Rightarrow>
     py_error + (heap \<times> entries StructuredOCR)" where
  "structured_ocr w self h path name =
     (if \<not> is_file w path
      then Inl (AssertionError (lit ''The provided image path does not exist.''))
      else
        (case read_base64 w path of
           Inl e \<Rightarrow> Inl e
         | Inr encoded \<Rightarrow>
             (case
                (case ocr_markdown w (data_url encoded) of
                   Inl e \<Rightarrow> Inl e
                 | Inr markdown \<Rightarrow>
                     (case
                        (case name of
                           None \<Rightarrow> Inr []
                         | Some n \<Rightarrow> if n = [] then Inr [] else fields_extraction_text w self n)
                      of
                        Inl e \<Rightarrow> Inl e
                      | Inr instr \<Rightarrow>
                          chat_parse w h (data_url encoded) (image_request markdown instr)))
              of
                Inl e \<Rightarrow> Inr (h, error_record w path e)
              | Inr res \<Rightarrow> Inr res)))"

text \<open>The loop of lines 162 to 177: a page whose recognition raises is left out.\<close>

fun page_markdowns :: "world \<Rightarrow> entries PDFPage list \<Rightarrow> pystr list" where
  "page_markdowns w [] = []"
| "page_markdowns w (page # pages) =
     (case
        (case read_base64 w (image_path page) of
           Inl e \<Rightarrow> Inl e
         | Inr encoded \<Rightarrow> ocr_markdown w (data_url encoded))
      of
        Inl e \<Rightarrow> page_markdowns w pages
      | Inr markdown \<Rightarrow>
          (lit ''=== Page '' @ str_int (page_number page) @ lit '' ==='' @ [10] @ markdown)
            # page_markdowns w pages)"

text \<open>
  The loop of lines 232 to 234. When a page raises, the pages before it keep the
  \<^verbatim>\<open>ocr_data\<close> assigned to them; the model reports the exception alone.
\<close>

fun process_each ::
  "world \<Rightarrow> OCRProcessor \<Rightarrow> heap \<Rightarrow> entries PDFPage list \<Rightarrow> pystr option \<Rightarrow>
     py_error + (heap \<times> entries PDFPage list)" where
  "process_each w self h [] name = Inr (h, [])"
| "process_each w self h (page # pages) name =
     (case structured_ocr w self h (image_path page) name of
        Inl e \<Rightarrow> Inl e
      | Inr (h', rec) \<Rightarrow>
          (case process_each w self h' pages name of
             Inl e \<Rightarrow> Inl e
           | Inr (h'', pages') \<Rightarrow> Inr (h'', page\<lparr>ocr_data := Some rec\<rparr> # pages')))"

definition individually ::
  "world \<Rightarrow> OCRProcessor \<Rightarrow> heap \<Rightarrow> entries PDFPage list \<Rightarrow> pystr option \<Rightarrow>
     py_error + (heap \<times> entries PDFPage list \<times> entries processed)" where
  "individually w self h pdf_pages name =
     (case process_each w self h pdf_pages name of
        Inl e \<Rightarrow> Inl e
      | Inr (h', pages') \<Rightarrow> Inr (h', pages', Pages pages'))"

definition process_pdf_pages ::
  "world \<Rightarrow> OCRProcessor \<Rightarrow> heap \<Rightarrow> entries PDFPage list \<Rightarrow> pystr option \<Rightarrow>
     py_error + (heap \<times> entries PDFPage list \<times> entries processed)" where
  "process_pdf_pages w self h pdf_pages name =
     (case pdf_pages of
        [] \<Rightarrow> Inr (h, [], Pages [])
      | first # others \<Rightarrow>
          (case name of
             None \<Rightarrow> individually w self h pdf_pages name
           | Some n \<Rightarrow>
               if n = [] then individually w self h pdf_pages name
               else
                 (let combined = join [10, 10] (page_markdowns w pdf_pages)
                  in case fields_extraction_text w self n of
                       Inl e \<Rightarrow> Inl e
                     | Inr instr \<Rightarrow>
                         (case
                            (case read_base64 w (image_path first) of
                               Inl e \<Rightarrow> Inl e
                             | Inr encoded \<Rightarrow>
                                 chat_parse w h (data_url encoded)
                                   (document_request combined instr))
                          of
                            Inl e \<Rightarrow> individually w self h pdf_pages name
                          | Inr (h', result) \<Rightarrow>
                              Inr (h', first\<lparr>ocr_data := Some result\<rparr> # others,
                                   Combined result)))))"

text \<open>The processor as a \<^verbatim>\<open>DataExtractor\<close> calls it, line 83.\<close>

definition processor_of :: "world \<Rightarrow> OCRProcessor \<Rightarrow> processor" where
  "processor_of w self = (\<lambda>h pdf_pages name. process_pdf_pages w self h pdf_pages (Some name))"

section \<open>data\_extractor.py: loading the prompts\<close>

text \<open>
  \<^verbatim>\<open>_load_prompts\<close>: the argument is \<open>None\<close> when the directory does not exist, otherwise
  its \<^verbatim>\<open>*.md\<close> files, each with the name without extension and the content. The
  directory is held as a \<^verbatim>\<open>Path\<close> and printed as \<^verbatim>\<open>pathlib\<close> prints it.
\<close>

definition directory_missing :: "pystr \<Rightarrow> pystr" where
  "directory_missing dir =
     lit (''Le r'' @ [CHR 0xE9] @ ''pertoire de prompts '' @ [CHR 0x27]) @ dir
       @ lit ([CHR 0x27] @ '' n'existe pas'')"

definition load_prompts ::
  "world \<Rightarrow> pystr \<Rightarrow> (pystr \<times> pystr) list option \<Rightarrow> py_error + (pystr \<times> pystr) list" where
  "load_prompts w dir listing =
     (case listing of
        None \<Rightarrow> Inl (FileNotFoundError (directory_missing (path_str w dir)))
      | Some files \<Rightarrow> Inr (foldl (\<lambda>ps (name, content). dict_set ps name content) [] files))"

definition new_DataExtractor ::
  "world \<Rightarrow> pystr \<Rightarrow> (pystr \<times> pystr) list option \<Rightarrow> processor option \<Rightarrow>
     py_error + DataExtractor" where
  "new_DataExtractor w dir listing proc =
     (case load_prompts w dir listing of
        Inl e \<Rightarrow> Inl e
      | Inr ps \<Rightarrow> Inr \<lparr>prompts = ps, ocr_processor = proc\<rparr>)"

section \<open>Reading the store\<close>

text \<open>
  What a run of the merge may do to the store it is given: allocate, and add elements at the
  end of a list. A mapping object stays as it is.
\<close>

definition grown :: "heap \<Rightarrow> heap \<Rightarrow> bool" where
  "grown h h' =
     (length h \<le> length h'
      \<and> (\<forall>c kvs. c < length h \<and> h ! c = ODict kvs \<longrightarrow> h' ! c = ODict kvs)
      \<and> (\<forall>c xs. c < length h \<and> h ! c = OList xs \<longrightarrow> (\<exists>more. h' ! c = OList (xs @ more))))"

section \<open>Reading the tables\<close>

text \<open>
  The name of the table a top-level item goes to, and the items that go to the general
  table.
\<close>

definition is_general :: "pystr \<times> jvalue \<Rightarrow> bool" where
  "is_general kv = (\<not> is_record_list (snd kv) \<and> \<not> is_dict (snd kv))"

definition table_name :: "pystr \<times> jvalue \<Rightarrow> pystr" where
  "table_name kv = (if is_general kv then general_label else fst kv)"

text \<open>The records a table of its own is built from, for an item that gets one.\<close>

definition records_of :: "jvalue \<Rightarrow> jvalue list" where
  "records_of v = (if is_record_list v then elements_of v else [v])"

definition records_ok :: "jvalue \<Rightarrow> bool" where
  "records_ok v = (is_record_list v \<longrightarrow> list_all is_dict (elements_of v))"

text \<open>The general table of a mapping of tables: its columns, and that it has one row.\<close>

definition general_cols :: "tables \<Rightarrow> (pystr \<times> cell list) list" where
  "general_cols dfs = (case map_of dfs general_label of None \<Rightarrow> [] | Some g \<Rightarrow> cols g)"

definition general_ok :: "tables \<Rightarrow> bool" where
  "general_ok dfs = (case map_of dfs general_label of None \<Rightarrow> True | Some g \<Rightarrow> index_len g = 1)"

definition set_cell :: "(pystr \<times> cell list) list \<Rightarrow> pystr \<times> jvalue \<Rightarrow> (pystr \<times> cell list) list" where
  "set_cell cs kv = dict_set cs (fst kv) [Some (snd kv)]"

text \<open>Scalars, and data whose tables hold scalars only.\<close>

definition scalar :: "jvalue \<Rightarrow> bool" where
  "scalar v = (\<not> is_jlist v \<and> \<not> is_dict v)"

definition scalar_cell :: "cell \<Rightarrow> bool" where
  "scalar_cell c = (case c of None \<Rightarrow> True | Some v \<Rightarrow> scalar v)"

definition scalar_frame :: "dataframe \<Rightarrow> bool" where
  "scalar_frame df = list_all (\<lambda>col. list_all scalar_cell (snd col)) (cols df)"

definition flat_record :: "jvalue \<Rightarrow> bool" where
  "flat_record r = (is_dict r \<and> list_all (\<lambda>kv. scalar (snd kv)) (items_of r))"

definition flat :: "jvalue \<Rightarrow> bool" where
  "flat v = (scalar v \<or> flat_record v \<or> (is_record_list v \<and> list_all flat_record (elements_of v)))"

text \<open>The result for data that cannot be projected: one table, one row, one message.\<close>

definition placeholder_tables :: tables where
  "placeholder_tables =
     [(error_label, \<lparr>index_len = 1, cols = map (\<lambda>kv. (fst kv, [Some (snd kv)])) placeholder\<rparr>)]"

section \<open>Example inputs\<close>

definition facture :: pystr where
  "facture = lit ''facture''"

definition commande :: pystr where
  "commande = lit ''commande.pdf''"

text \<open>An extractor with one prompt loaded and no OCR processor.\<close>

definition extractor :: DataExtractor where
  "extractor = \<lparr>prompts = [(facture, lit ''Client, Total'')], ocr_processor = None\<rparr>"

definition page_with :: "int \<Rightarrow> string \<Rightarrow> entries \<Rightarrow> entries PDFPage" where
  "page_with n path contents =
     \<lparr>page_number = n, image_path = lit path,
      ocr_data = Some \<lparr>file_name = lit path, ocr_contents = contents\<rparr>\<rparr>"

text \<open>Two pages handed over with the second page first.\<close>

definition reversed_pages :: "entries PDFPage list" where
  "reversed_pages =
     [page_with 2 ''page_002.jpeg'' [(lit ''Total'', PInt 120)],
      page_with 1 ''page_001.jpeg'' [(lit ''Client'', PStr (lit ''Acme''))]]"

definition ordered_pages :: "entries PDFPage list" where
  "ordered_pages =
     [page_with 1 ''page_001.jpeg'' [(lit ''Client'', PStr (lit ''Acme'')), (lit ''Total'', PInt 100)],
      page_with 2 ''page_002.jpeg'' [(lit ''Total'', PInt 20), (lit ''Date'', PStr (lit ''21/01/25''))]]"

text \<open>Three pages that each hold a string under the same key.\<close>

definition three_pages :: "entries PDFPage list" where
  "three_pages =
     [page_with 1 ''page_001.jpeg'' [(lit ''k'', PStr (lit ''X''))],
      page_with 2 ''page_002.jpeg'' [(lit ''k'', PStr (lit ''Y''))],
      page_with 3 ''page_003.jpeg'' [(lit ''k'', PStr (lit ''Z''))]]"

text \<open>A processor that returns the pages as it was given them.\<close>

definition as_they_are :: processor where
  "as_they_are = (\<lambda>h pdf_pages name. Inr (h, pdf_pages, Pages pdf_pages))"

text \<open>Two pages that each hold a list under the same key; the lists are objects 0 and 1.\<close>

definition list_store :: heap where
  "list_store = [OList [PStr (lit ''A'')], OList [PStr (lit ''B'')]]"

definition list_pages :: "entries PDFPage list" where
  "list_pages =
     [page_with 1 ''page_001.jpeg'' [(lit ''Ref'', PRef 0)],
      page_with 2 ''page_002.jpeg'' [(lit ''Ref'', PRef 1)]]"

text \<open>
  A pandas for the examples. It stores the values of a column as they are given, which is
  what pandas does with a column of strings or of integers without a missing entry. Of an
  element that is not a mapping it makes what \<^verbatim>\<open>dict\<close> makes of it when the element is a
  string: the empty record of the empty string, and \<^verbatim>\<open>ValueError\<close> otherwise.
\<close>

definition stored_as :: "jvalue \<Rightarrow> stored" where
  "stored_as v =
     (case v of
        JBool b \<Rightarrow> SBool b
      | JInt i \<Rightarrow> SInt i
      | JFloat r \<Rightarrow> SFloat r
      | JStr s \<Rightarrow> SStr s
      | _ \<Rightarrow> SNone)"

definition not_a_pair :: pystr where
  "not_a_pair = lit ''dictionary update sequence element #0 has length 1; 2 is required''"

definition not_iterable :: "jvalue \<Rightarrow> pystr" where
  "not_iterable v = lit ([CHR 0x27] @ type_name v @ [CHR 0x27] @ '' object is not iterable'')"

definition as_given :: pandas where
  "as_given =
     \<lparr>coerce = (\<lambda>cells v. Some (stored_as v)),
      non_mapping = (\<lambda>v. case v of
         JStr s \<Rightarrow> if s = [] then Inr [] else Inl (ValueError not_a_pair)
       | _ \<Rightarrow> Inl (TypeError (not_iterable v)))\<rparr>"

definition result_of :: "(pystr \<times> jvalue) list \<Rightarrow> jvalue ExtractionResult" where
  "result_of kvs = \<lparr>pdf_file = commande, prompt_name = facture, extracted_data = JDict kvs\<rparr>"

definition invoice :: "(pystr \<times> jvalue) list" where
  "invoice =
     [(lit ''Items'',
       JList [JDict [(lit ''sku'', JStr (lit ''A'')), (lit ''qty'', JInt 2)],
              JDict [(lit ''sku'', JStr (lit ''B'')), (lit ''qty'', JInt 1)]]),
      (lit ''InvoiceNumber'', JStr (lit ''123''))]"

text \<open>A scalar, then a mapping under the label of the general table.\<close>

definition labelled :: "(pystr \<times> jvalue) list" where
  "labelled =
     [(lit ''Client'', JStr (lit ''Acme'')),
      (general_label, JDict [(lit ''Adresse'', JStr (lit ''Paris''))])]"

text \<open>A list that starts with a mapping and goes on with a string.\<close>

definition mixed_list :: "(pystr \<times> jvalue) list" where
  "mixed_list = [(lit ''Lignes'', JList [JDict [(lit ''Qte'', JInt 2)], JStr (lit ''total'')])]"

text \<open>A key merged from two pages, and a record with a list inside.\<close>

definition merged_total :: "(pystr \<times> jvalue) list" where
  "merged_total = [(lit ''Total'', JList [JInt 100, JInt 20])]"

definition client_record :: "(pystr \<times> jvalue) list" where
  "client_record =
     [(lit ''Client'',
       JDict [(lit ''nom'', JStr (lit ''Acme'')),
              (lit ''contacts'', JList [JStr (lit ''a@acme.fr''), JStr (lit ''b@acme.fr'')])])]"

text \<open>A mapping under the label of the general table, then a scalar.\<close>

definition label_then_scalar :: "(pystr \<times> jvalue) list" where
  "label_then_scalar =
     [(general_label, JDict [(lit ''Adresse'', JStr (lit ''Paris''))]),
      (lit ''Client'', JStr (lit ''Acme''))]"

text \<open>The same, the scalar under a key of the mapping.\<close>

definition label_then_same_key :: "(pystr \<times> jvalue) list" where
  "label_then_same_key =
     [(general_label, JDict [(lit ''Client'', JStr (lit ''Acme''))]),
      (lit ''Client'', JStr (lit ''Durand''))]"

text \<open>
  A world in which every image can be read and recognised and no prompt file exists. The
  chat call answers with the request it was sent, so the request can be read off the result.
\<close>

definition echo_world :: world where
  "echo_world =
     \<lparr>prompt_files = (\<lambda>name. None),
      is_file = (\<lambda>path. True),
      read_base64 = (\<lambda>path. Inr (lit ''AAAA'')),
      ocr_markdown = (\<lambda>url. Inr (lit ''# Facture'')),
      chat_parse = (\<lambda>h url request.
         Inr (h, \<lparr>file_name = lit ''facture'', ocr_contents = [(lit ''request'', PStr request)]\<rparr>)),
      path_name = (\<lambda>path. path),
      path_str = (\<lambda>path. if take 2 path = lit ''./'' then drop 2 path else path)\<rparr>"

definition ocr :: OCRProcessor where
  "ocr = \<lparr>prompt_dir = lit ''./prompt_extraction''\<rparr>"

definition blank_page :: "entries PDFPage" where
  "blank_page = \<lparr>page_number = 1, image_path = lit ''page_001.jpeg'', ocr_data = None\<rparr>"

section \<open>The merge of extract\_data\<close>

subsection \<open>Mappings and the store\<close>

lemma dict_keys_dict_set: "dict_keys (dict_set d k v) = see (dict_keys d) k"
  by (induction d k v rule: dict_set.induct) (auto simp: dict_keys_def see_def)

lemma map_of_dict_set: "map_of (dict_set d k v) k' = (if k' = k then Some v else map_of d k')"
  by (induction d k v rule: dict_set.induct) auto

lemma dict_set_absent: "map_of d k = None \<Longrightarrow> dict_set d k v = d @ [(k, v)]"
  by (induction d k v rule: dict_set.induct) (auto split: if_splits)

lemma map_of_None_keys: "map_of d k = None \<longleftrightarrow> k \<notin> set (dict_keys d)"
  by (simp add: dict_keys_def map_of_eq_None_iff)

lemma as_list_SomeD:
  "as_list h v = Some (a, xs) \<Longrightarrow> v = PRef a \<and> a < length h \<and> h ! a = OList xs"
  by (auto simp: as_list_def heap_get_def split: pyval.splits option.splits pyobj.splits if_splits)

lemma as_list_update_same:
  "a < length h \<Longrightarrow> as_list (h[a := OList zs]) (PRef a) = Some (a, zs)"
  by (simp add: as_list_def heap_get_def)

subsection \<open>One step of the merge\<close>

lemma merge_item_first:
  "map_of ed key = None \<Longrightarrow> merge_item (h, ed) (key, val) = (h, ed @ [(key, val)])"
  by (simp add: dict_set_absent)

lemma merge_item_extend:
  "map_of ed key = Some cur \<Longrightarrow> as_list h cur = Some (a, xs) \<Longrightarrow> as_list h val = Some (b, ys)
   \<Longrightarrow> merge_item (h, ed) (key, val) = (h[a := OList (xs @ ys)], ed)"
  by simp

lemma merge_item_append:
  "map_of ed key = Some cur \<Longrightarrow> as_list h cur = Some (a, xs) \<Longrightarrow> as_list h val = None
   \<Longrightarrow> merge_item (h, ed) (key, val) = (h[a := OList (xs @ [val])], ed)"
  by simp

lemma merge_item_promote:
  "map_of ed key = Some cur \<Longrightarrow> as_list h cur = None
   \<Longrightarrow> merge_item (h, ed) (key, val) = (h @ [OList [cur, val]], dict_set ed key (PRef (length h)))"
  by (simp add: alloc_def)

lemma as_list_fresh: "as_list (h @ [OList zs]) (PRef (length h)) = Some (length h, zs)"
  by (simp add: as_list_def heap_get_def)

subsection \<open>A stored list stays the stored list\<close>

lemma merge_item_keeps_list:
  assumes "map_of ed key = Some cur" and "as_list h cur = Some (a, xs)"
  shows "\<exists>more. map_of (snd (merge_item (h, ed) kv)) key = Some cur
           \<and> as_list (fst (merge_item (h, ed) kv)) cur = Some (a, xs @ more)"
proof -
  obtain k v where kv: "kv = (k, v)" by (cases kv)
  from assms(2) have cur: "cur = PRef a" and a: "a < length h" and ha: "h ! a = OList xs"
    using as_list_SomeD by blast+
  show ?thesis
  proof (cases "map_of ed k")
    case None
    then have "k \<noteq> key" using assms(1) by auto
    then show ?thesis using None kv assms by (auto simp: map_of_dict_set intro: exI [of _ "[]"])
  next
    case (Some c)
    show ?thesis
    proof (cases "as_list h c")
      case None
      have "k \<noteq> key" using None Some assms by auto
      moreover have "as_list (h @ [OList [c, v]]) (PRef a) = Some (a, xs)"
        using a ha by (simp add: as_list_def heap_get_def nth_append)
      ultimately show ?thesis using None Some kv assms(1) cur
        by (auto simp: map_of_dict_set alloc_def intro: exI [of _ "[]"])
    next
      case (Some p)
      then obtain a' xs' where p: "p = (a', xs')" by (cases p)
      with Some have c: "as_list h c = Some (a', xs')" by simp
      then have a': "a' < length h" and ha': "h ! a' = OList xs'"
        using as_list_SomeD by blast+
      define zs where "zs = (case as_list h v of Some (b, ys) \<Rightarrow> ys | None \<Rightarrow> [v])"
      have step: "merge_item (h, ed) kv = (h[a' := OList (xs' @ zs)], ed)"
        using kv \<open>map_of ed k = Some c\<close> c by (auto simp: zs_def split: option.splits)
      show ?thesis
      proof (cases "a' = a")
        case True
        then have "xs' = xs" using ha ha' by simp
        then show ?thesis using step True a cur assms(1)
          by (auto simp: as_list_update_same)
      next
        case False
        then have "as_list (h[a' := OList (xs' @ zs)]) (PRef a) = Some (a, xs)"
          using a ha by (simp add: as_list_def heap_get_def)
        then show ?thesis using step cur assms(1) by (auto intro: exI [of _ "[]"])
      qed
    qed
  qed
qed

lemma foldl_merge_item_keeps_list:
  "map_of ed key = Some cur \<Longrightarrow> as_list h cur = Some (a, xs) \<Longrightarrow>
   \<exists>more. map_of (snd (foldl merge_item (h, ed) kvs)) key = Some cur
         \<and> as_list (fst (foldl merge_item (h, ed) kvs)) cur = Some (a, xs @ more)"
proof (induction kvs arbitrary: h ed xs)
  case Nil
  then show ?case by (auto intro: exI [of _ "[]"])
next
  case (Cons kv kvs)
  obtain h1 ed1 where st: "merge_item (h, ed) kv = (h1, ed1)" by (cases "merge_item (h, ed) kv")
  from merge_item_keeps_list [OF Cons.prems, of kv] st
  obtain m1 where 1: "map_of ed1 key = Some cur" "as_list h1 cur = Some (a, xs @ m1)" by auto
  from Cons.IH [OF 1] obtain m2 where
    "map_of (snd (foldl merge_item (h1, ed1) kvs)) key = Some cur"
    "as_list (fst (foldl merge_item (h1, ed1) kvs)) cur = Some (a, (xs @ m1) @ m2)" by blast
  then show ?case using st by (auto intro: exI [of _ "m1 @ m2"])
qed

subsection \<open>The two loops as one fold over the items\<close>

lemma merge_page_items: "merge_page st page = foldl merge_item st (page_items page)"
  by (simp add: merge_page_def page_items_def split: option.splits)

lemma foldl_merge_page:
  "foldl merge_page st pages = foldl merge_item st (concat (map page_items pages))"
  by (induction pages arbitrary: st) (simp_all add: merge_page_items)

lemma merge_pages_items:
  "merge_pages h pages = foldl merge_item (h, []) (concat (map page_items pages))"
  by (simp add: merge_pages_def foldl_merge_page)

lemma fallback_eq:
  "fallback h pages name file = (h', pages', res) \<Longrightarrow>
     pages' = pages \<and> (h', extracted_data res) = merge_pages h pages
       \<and> pdf_file res = file \<and> prompt_name res = name"
  by (auto simp: fallback_def split: prod.splits)

lemma extract_data_fallback:
  assumes "extract_data self h pages name file = Inr (h', pages', res)"
    and "no_combined self h pages name"
  shows "\<exists>h0. (h', extracted_data res) = merge_pages h0 pages'
           \<and> (ocr_processor self = None \<longrightarrow> h0 = h \<and> pages' = pages)"
proof (cases "ocr_processor self")
  case None
  then have "fallback h pages name file = (h', pages', res)"
    using assms(1) by (simp add: extract_data_def split: if_splits)
  from fallback_eq [OF this] have "(h', extracted_data res) = merge_pages h pages'" "pages' = pages"
    by simp_all
  then show ?thesis by (intro exI [of _ h]) simp
next
  case (Some p)
  then obtain h0 ps0 ps where p: "p h pages name = Inr (h0, ps0, Pages ps)"
    using assms(2)
    by (auto simp: no_combined_def split: sum.splits prod.splits processed.splits)
  then have "fallback h0 ps0 name file = (h', pages', res)"
    using assms(1) Some by (simp add: extract_data_def split: if_splits)
  from fallback_eq [OF this] have "(h', extracted_data res) = merge_pages h0 pages'" by simp
  then show ?thesis using Some by (intro exI [of _ h0]) simp
qed

subsection \<open>The order of the keys\<close>

lemma keys_merge_item: "dict_keys (snd (merge_item st kv)) = see (dict_keys (snd st)) (fst kv)"
proof (cases st; cases kv)
  fix h ed key val
  assume st: "st = (h, ed)" and kv: "kv = (key, val)"
  show ?thesis
  proof (cases "map_of ed key")
    case None
    then show ?thesis using st kv by (simp add: dict_keys_dict_set)
  next
    case (Some cur)
    then have mem: "key \<in> set (dict_keys ed)"
      using map_of_None_keys [of ed key] by simp
    then have "see (dict_keys ed) key = dict_keys ed" by (simp add: see_def)
    then show ?thesis using st kv Some
      by (auto simp: alloc_def dict_keys_dict_set split: option.splits prod.splits)
  qed
qed

lemma keys_foldl_merge_item:
  "dict_keys (snd (foldl merge_item st kvs)) = foldl see (dict_keys (snd st)) (dict_keys kvs)"
proof (induction kvs arbitrary: st)
  case Nil
  then show ?case by (simp add: dict_keys_def)
next
  case (Cons kv kvs)
  have "dict_keys (kv # kvs) = fst kv # dict_keys kvs" by (simp add: dict_keys_def)
  then show ?case using Cons [of "merge_item st kv"] by (simp add: keys_merge_item)
qed

lemma keys_merge_page:
  "dict_keys (snd (merge_page st page)) = foldl see (dict_keys (snd st)) (page_keys page)"
  by (simp add: merge_page_items page_keys_def keys_foldl_merge_item)

lemma keys_foldl_merge_page:
  "dict_keys (snd (foldl merge_page st pages)) =
     foldl see (dict_keys (snd st)) (concat (map page_keys pages))"
  by (induction pages arbitrary: st) (simp_all add: keys_merge_page)

lemma keys_merge_pages:
  "dict_keys (snd (merge_pages h pages)) = first_appearance (concat (map page_keys pages))"
proof -
  have "dict_keys (snd (h, [] :: entries)) = []" by (simp add: dict_keys_def)
  then show ?thesis
    unfolding merge_pages_def keys_foldl_merge_page first_appearance_def by simp
qed

text \<open>
  Claim C1, as amended. When \<^verbatim>\<open>extract_data\<close> merges the pages itself, the keys of
  \<^verbatim>\<open>extracted_data\<close> are in the order in which they are first seen when the pages are
  scanned in the order of the list it was given. That is the scan in ascending
  \<^verbatim>\<open>page_number\<close> when the list is in ascending \<^verbatim>\<open>page_number\<close>; the code does not sort.
\<close>

theorem fallback_key_order:
  assumes "extract_data self h pdf_pages name file = Inr (h', pages', res)"
    and "no_combined self h pdf_pages name"
  shows "dict_keys (extracted_data res) = first_appearance (concat (map page_keys pages'))
       \<and> (sorted (map page_number pages') \<longrightarrow>
            dict_keys (extracted_data res) =
              first_appearance (concat (map page_keys (sort_key page_number pages'))))
       \<and> (ocr_processor self = None \<longrightarrow> pages' = pdf_pages)"
proof -
  from extract_data_fallback [OF assms] obtain h0 where
    m: "(h', extracted_data res) = merge_pages h0 pages'"
    and p: "ocr_processor self = None \<longrightarrow> h0 = h \<and> pages' = pdf_pages" by auto
  from m have "extracted_data res = snd (merge_pages h0 pages')" by (metis snd_conv)
  then have "dict_keys (extracted_data res) = first_appearance (concat (map page_keys pages'))"
    by (simp add: keys_merge_pages)
  then show ?thesis using p by (simp add: sort_key_id_if_sorted)
qed

text \<open>The theorem at two pages in ascending order, the second repeating a key of the first.\<close>

theorem fallback_key_order_witness:
  "extract_data extractor [] ordered_pages facture commande =
     Inr ([OList [PInt 100, PInt 20]], ordered_pages,
          \<lparr>pdf_file = commande, prompt_name = facture,
           extracted_data =
             [(lit ''Client'', PStr (lit ''Acme'')), (lit ''Total'', PRef 0),
              (lit ''Date'', PStr (lit ''21/01/25''))]\<rparr>)
   \<and> no_combined extractor [] ordered_pages facture
   \<and> sorted (map page_number ordered_pages)
   \<and> first_appearance (concat (map page_keys (sort_key page_number ordered_pages))) =
       [lit ''Client'', lit ''Total'', lit ''Date'']"
proof -
  have e: "extract_data extractor [] ordered_pages facture commande =
     Inr ([OList [PInt 100, PInt 20]], ordered_pages,
          \<lparr>pdf_file = commande, prompt_name = facture,
           extracted_data =
             [(lit ''Client'', PStr (lit ''Acme'')), (lit ''Total'', PRef 0),
              (lit ''Date'', PStr (lit ''21/01/25''))]\<rparr>)"
    by (simp add: extract_data_def extractor_def fallback_def merge_pages_def merge_page_def
        ordered_pages_def page_with_def facture_def dict_keys_def lit_def as_list_def
        heap_get_def alloc_def)
  have n: "no_combined extractor [] ordered_pages facture"
    by (simp add: no_combined_def extractor_def)
  have s: "sorted (map page_number ordered_pages)"
    by (simp add: ordered_pages_def page_with_def)
  from fallback_key_order [OF e n] s
  have "dict_keys (extracted_data \<lparr>pdf_file = commande, prompt_name = facture,
           extracted_data =
             [(lit ''Client'', PStr (lit ''Acme'')), (lit ''Total'', PRef 0),
              (lit ''Date'', PStr (lit ''21/01/25''))]\<rparr>) =
        first_appearance (concat (map page_keys (sort_key page_number ordered_pages)))"
    by blast
  then have "first_appearance (concat (map page_keys (sort_key page_number ordered_pages))) =
       [lit ''Client'', lit ''Total'', lit ''Date'']"
    by (simp add: dict_keys_def)
  then show ?thesis using e n s by simp
qed

text \<open>
  Claim C1 as stated fails for a list that is not in ascending order: with page 2 before
  page 1 the keys come out in the order of the list.
\<close>

theorem key_order_counterexample:
  "reversed_pages \<noteq> [] \<and> distinct (map page_number reversed_pages)
   \<and> ocr_data (reversed_pages ! 0) \<noteq> None \<and> ocr_data (reversed_pages ! 1) \<noteq> None
   \<and> extract_data extractor [] reversed_pages facture commande =
       Inr ([], reversed_pages,
            \<lparr>pdf_file = commande, prompt_name = facture,
             extracted_data = [(lit ''Total'', PInt 120), (lit ''Client'', PStr (lit ''Acme''))]\<rparr>)
   \<and> first_appearance (concat (map page_keys (sort_key page_number reversed_pages))) =
       [lit ''Client'', lit ''Total'']
   \<and> [lit ''Total'', lit ''Client''] \<noteq> [lit ''Client'', lit ''Total'']"
  by (simp add: extract_data_def extractor_def fallback_def merge_pages_def merge_page_def
      reversed_pages_def page_with_def facture_def dict_keys_def lit_def as_list_def
      heap_get_def alloc_def first_appearance_def see_def page_keys_def page_items_def)

subsection \<open>The rules of the merge\<close>

lemma fallback_fold:
  "fallback h pages name doc =
     (fst (foldl merge_item (h, []) (concat (map page_items pages))), pages,
      \<lparr>pdf_file = doc, prompt_name = name,
       extracted_data = snd (foldl merge_item (h, []) (concat (map page_items pages)))\<rparr>)"
  by (simp add: fallback_def merge_pages_items case_prod_beta)

text \<open>
  Claim C2. When \<^verbatim>\<open>extract_data\<close> is called with a loaded prompt and there is no combined
  record (it has no processor, or the processor returns the pages), the store and the
  \<^verbatim>\<open>extracted_data\<close> it returns are those got by applying \<open>merge_item\<close>, from the empty
  mapping, to every item of every page that has \<^verbatim>\<open>ocr_data\<close>, in order; so is the result
  of the two loops, \<open>merge_pages\<close>. One application does the following. A key seen for
  the first time is inserted with its value unchanged, after the keys already there. For a key
  whose stored value is a list, that list is extended by the elements of the new value when
  the new value is a list and gets the new value as one more element otherwise; the key stays
  bound to the same list through every later item, and the list only grows at its end. For a
  key whose stored value is not a list, the key keeps its place and is bound to a new
  two-element list of the stored and the new value, so the list rules apply from then on.
\<close>

theorem merge_follows_rules:
  "(name \<in> set (dict_keys (prompts self)) \<and> ocr_processor self = None \<longrightarrow>
      extract_data self hi pdf_pages name doc =
        Inr (fst (foldl merge_item (hi, []) (concat (map page_items pdf_pages))), pdf_pages,
             \<lparr>pdf_file = doc, prompt_name = name,
              extracted_data =
                snd (foldl merge_item (hi, []) (concat (map page_items pdf_pages)))\<rparr>))
   \<and> (name \<in> set (dict_keys (prompts self)) \<and> ocr_processor self = Some p
        \<and> p hi pdf_pages name = Inr (hp, pp, Pages ps) \<longrightarrow>
      extract_data self hi pdf_pages name doc =
        Inr (fst (foldl merge_item (hp, []) (concat (map page_items pp))), pp,
             \<lparr>pdf_file = doc, prompt_name = name,
              extracted_data =
                snd (foldl merge_item (hp, []) (concat (map page_items pp)))\<rparr>))
   \<and> merge_pages h0 pages = foldl merge_item (h0, []) (concat (map page_items pages))
   \<and> (map_of ed key = None \<longrightarrow>
        merge_item (h, ed) (key, val) = (h, ed @ [(key, val)]))
   \<and> (map_of ed key = Some cur \<and> as_list h cur = Some (a, xs) \<longrightarrow>
        (as_list h val = Some (b, ys) \<longrightarrow>
           merge_item (h, ed) (key, val) = (h[a := OList (xs @ ys)], ed)
           \<and> as_list (h[a := OList (xs @ ys)]) cur = Some (a, xs @ ys))
        \<and> (as_list h val = None \<longrightarrow>
           merge_item (h, ed) (key, val) = (h[a := OList (xs @ [val])], ed)
           \<and> as_list (h[a := OList (xs @ [val])]) cur = Some (a, xs @ [val]))
        \<and> (\<exists>more. map_of (snd (foldl merge_item (h, ed) kvs)) key = Some cur
              \<and> as_list (fst (foldl merge_item (h, ed) kvs)) cur = Some (a, xs @ more)))
   \<and> (map_of ed key = Some cur \<and> as_list h cur = None \<longrightarrow>
        merge_item (h, ed) (key, val) =
          (h @ [OList [cur, val]], dict_set ed key (PRef (length h)))
        \<and> dict_keys (dict_set ed key (PRef (length h))) = dict_keys ed
        \<and> map_of (dict_set ed key (PRef (length h))) key = Some (PRef (length h))
        \<and> as_list (h @ [OList [cur, val]]) (PRef (length h)) = Some (length h, [cur, val]))"
proof (intro conjI impI)
  assume "name \<in> set (dict_keys (prompts self)) \<and> ocr_processor self = None"
  then show "extract_data self hi pdf_pages name doc =
        Inr (fst (foldl merge_item (hi, []) (concat (map page_items pdf_pages))), pdf_pages,
             \<lparr>pdf_file = doc, prompt_name = name,
              extracted_data =
                snd (foldl merge_item (hi, []) (concat (map page_items pdf_pages)))\<rparr>)"
    by (simp add: extract_data_def fallback_fold)
next
  assume "name \<in> set (dict_keys (prompts self)) \<and> ocr_processor self = Some p
        \<and> p hi pdf_pages name = Inr (hp, pp, Pages ps)"
  then show "extract_data self hi pdf_pages name doc =
        Inr (fst (foldl merge_item (hp, []) (concat (map page_items pp))), pp,
             \<lparr>pdf_file = doc, prompt_name = name,
              extracted_data =
                snd (foldl merge_item (hp, []) (concat (map page_items pp)))\<rparr>)"
    by (simp add: extract_data_def fallback_fold)
next
  show "merge_pages h0 pages = foldl merge_item (h0, []) (concat (map page_items pages))"
    by (rule merge_pages_items)
next
  assume "map_of ed key = None"
  then show "merge_item (h, ed) (key, val) = (h, ed @ [(key, val)])"
    by (rule merge_item_first)
next
  assume s: "map_of ed key = Some cur \<and> as_list h cur = Some (a, xs)"
    and v: "as_list h val = Some (b, ys)"
  show "merge_item (h, ed) (key, val) = (h[a := OList (xs @ ys)], ed)"
    using s v by (simp add: merge_item_extend)
  show "as_list (h[a := OList (xs @ ys)]) cur = Some (a, xs @ ys)"
    using s as_list_SomeD [of h cur a xs] by (simp add: as_list_update_same)
next
  assume s: "map_of ed key = Some cur \<and> as_list h cur = Some (a, xs)"
    and v: "as_list h val = None"
  show "merge_item (h, ed) (key, val) = (h[a := OList (xs @ [val])], ed)"
    using s v by (simp add: merge_item_append)
  show "as_list (h[a := OList (xs @ [val])]) cur = Some (a, xs @ [val])"
    using s as_list_SomeD [of h cur a xs] by (simp add: as_list_update_same)
next
  assume s: "map_of ed key = Some cur \<and> as_list h cur = Some (a, xs)"
  then show "\<exists>more. map_of (snd (foldl merge_item (h, ed) kvs)) key = Some cur
              \<and> as_list (fst (foldl merge_item (h, ed) kvs)) cur = Some (a, xs @ more)"
    using foldl_merge_item_keeps_list [of ed key cur h a xs kvs] by simp
next
  assume s: "map_of ed key = Some cur \<and> as_list h cur = None"
  show "merge_item (h, ed) (key, val) =
          (h @ [OList [cur, val]], dict_set ed key (PRef (length h)))"
    using s merge_item_promote [of ed key cur h val] by blast
  have "key \<in> set (dict_keys ed)" using s map_of_None_keys [of ed key] by simp
  then show "dict_keys (dict_set ed key (PRef (length h))) = dict_keys ed"
    by (simp add: dict_keys_dict_set see_def)
  show "map_of (dict_set ed key (PRef (length h))) key = Some (PRef (length h))"
    by (simp add: map_of_dict_set)
  show "as_list (h @ [OList [cur, val]]) (PRef (length h)) = Some (length h, [cur, val])"
    by (rule as_list_fresh)
qed


text \<open>
  The theorem at three pages that hold \<^verbatim>\<open>"X"\<close>, \<^verbatim>\<open>"Y"\<close> and \<^verbatim>\<open>"Z"\<close> under one key,
  without a processor and with a processor that returns the pages; the rules at the values
  the key takes there, \<^verbatim>\<open>"X"\<close>, then \<^verbatim>\<open>["X", "Y"]\<close>, then \<^verbatim>\<open>["X", "Y", "Z"]\<close>; and a list
  extended by a list.
\<close>

theorem merge_follows_rules_witness:
  "facture \<in> set (dict_keys (prompts extractor)) \<and> ocr_processor extractor = None
   \<and> extract_data extractor [] three_pages facture commande =
       Inr ([OList [PStr (lit ''X''), PStr (lit ''Y''), PStr (lit ''Z'')]], three_pages,
            \<lparr>pdf_file = commande, prompt_name = facture,
             extracted_data = [(lit ''k'', PRef 0)]\<rparr>)
   \<and> as_they_are [] three_pages facture = Inr ([], three_pages, Pages three_pages)
   \<and> extract_data (extractor\<lparr>ocr_processor := Some as_they_are\<rparr>) [] three_pages facture
         commande =
       Inr ([OList [PStr (lit ''X''), PStr (lit ''Y''), PStr (lit ''Z'')]], three_pages,
            \<lparr>pdf_file = commande, prompt_name = facture,
             extracted_data = [(lit ''k'', PRef 0)]\<rparr>)
   \<and> merge_item ([], []) (lit ''k'', PStr (lit ''X'')) = ([], [(lit ''k'', PStr (lit ''X''))])
   \<and> merge_item ([], [(lit ''k'', PStr (lit ''X''))]) (lit ''k'', PStr (lit ''Y'')) =
       ([OList [PStr (lit ''X''), PStr (lit ''Y'')]], [(lit ''k'', PRef 0)])
   \<and> merge_item ([OList [PStr (lit ''X''), PStr (lit ''Y'')]], [(lit ''k'', PRef 0)])
         (lit ''k'', PStr (lit ''Z'')) =
       ([OList [PStr (lit ''X''), PStr (lit ''Y''), PStr (lit ''Z'')]], [(lit ''k'', PRef 0)])
   \<and> merge_item ([OList [PStr (lit ''A'')], OList [PStr (lit ''B''), PStr (lit ''C'')]],
                   [(lit ''k'', PRef 0)]) (lit ''k'', PRef 1) =
       ([OList [PStr (lit ''A''), PStr (lit ''B''), PStr (lit ''C'')],
         OList [PStr (lit ''B''), PStr (lit ''C'')]], [(lit ''k'', PRef 0)])"
proof -
  let ?k = "lit ''k''"
  let ?X = "PStr (lit ''X'')" and ?Y = "PStr (lit ''Y'')" and ?Z = "PStr (lit ''Z'')"
  have 1: "map_of ([] :: entries) ?k = None" by simp
  have 2: "map_of [(?k, ?X)] ?k = Some ?X \<and> as_list [] ?X = None"
    by (simp add: as_list_def)
  have 3: "map_of [(?k, PRef 0)] ?k = Some (PRef 0)
           \<and> as_list [OList [?X, ?Y]] (PRef 0) = Some (0, [?X, ?Y])"
    by (simp add: as_list_def heap_get_def)
  have n3: "as_list [OList [?X, ?Y]] ?Z = None" by (simp add: as_list_def)
  let ?h = "[OList [PStr (lit ''A'')], OList [PStr (lit ''B''), PStr (lit ''C'')]]"
  have 4: "map_of [(?k, PRef 0)] ?k = Some (PRef 0)
           \<and> as_list ?h (PRef 0) = Some (0, [PStr (lit ''A'')])"
    by (simp add: as_list_def heap_get_def)
  have n4: "as_list ?h (PRef 1) = Some (1, [PStr (lit ''B''), PStr (lit ''C'')])"
    by (simp add: as_list_def heap_get_def)
  from merge_follows_rules [where ed = "[]" and key = ?k and h = "[]" and val = ?X] 1
  have a: "merge_item ([], []) (?k, ?X) = ([], [(?k, ?X)])" by simp
  from merge_follows_rules [where ed = "[(?k, ?X)]" and key = ?k and h = "[]" and val = ?Y
      and cur = ?X] 2
  have b: "merge_item ([], [(?k, ?X)]) (?k, ?Y) = ([OList [?X, ?Y]], [(?k, PRef 0)])"
    by simp
  from merge_follows_rules [where ed = "[(?k, PRef 0)]" and key = ?k and h = "[OList [?X, ?Y]]"
      and val = ?Z and cur = "PRef 0" and a = 0 and xs = "[?X, ?Y]"] 3 n3
  have c: "merge_item ([OList [?X, ?Y]], [(?k, PRef 0)]) (?k, ?Z) =
             ([OList [?X, ?Y, ?Z]], [(?k, PRef 0)])"
    by simp
  from merge_follows_rules [where ed = "[(?k, PRef 0)]" and key = ?k and h = ?h
      and val = "PRef 1" and cur = "PRef 0" and a = 0 and xs = "[PStr (lit ''A'')]"
      and b = 1 and ys = "[PStr (lit ''B''), PStr (lit ''C'')]"] 4 n4
  have d: "merge_item (?h, [(?k, PRef 0)]) (?k, PRef 1) =
             ([OList [PStr (lit ''A''), PStr (lit ''B''), PStr (lit ''C'')],
               OList [PStr (lit ''B''), PStr (lit ''C'')]], [(?k, PRef 0)])"
    by simp
  have items: "concat (map page_items three_pages) = [(?k, ?X), (?k, ?Y), (?k, ?Z)]"
    by (simp add: three_pages_def page_with_def page_items_def)
  have run: "foldl merge_item ([], []) [(?k, ?X), (?k, ?Y), (?k, ?Z)] =
      ([OList [?X, ?Y, ?Z]], [(?k, PRef 0)])"
    using a b c by simp
  have l: "facture \<in> set (dict_keys (prompts extractor))" "ocr_processor extractor = None"
    by (simp_all add: extractor_def dict_keys_def)
  from merge_follows_rules [where self = extractor and name = facture and hi = "[]"
      and pdf_pages = three_pages and doc = commande] l
  have "extract_data extractor [] three_pages facture commande =
       Inr (fst (foldl merge_item ([], []) (concat (map page_items three_pages))), three_pages,
            \<lparr>pdf_file = commande, prompt_name = facture,
             extracted_data =
               snd (foldl merge_item ([], []) (concat (map page_items three_pages)))\<rparr>)"
    by blast
  then have e: "extract_data extractor [] three_pages facture commande =
       Inr ([OList [?X, ?Y, ?Z]], three_pages,
            \<lparr>pdf_file = commande, prompt_name = facture, extracted_data = [(?k, PRef 0)]\<rparr>)"
    unfolding items run by simp
  have l': "facture \<in> set (dict_keys (prompts (extractor\<lparr>ocr_processor := Some as_they_are\<rparr>)))"
    "ocr_processor (extractor\<lparr>ocr_processor := Some as_they_are\<rparr>) = Some as_they_are"
    by (simp_all add: extractor_def dict_keys_def)
  have q: "as_they_are [] three_pages facture = Inr ([], three_pages, Pages three_pages)"
    by (simp add: as_they_are_def)
  from merge_follows_rules [where self = "extractor\<lparr>ocr_processor := Some as_they_are\<rparr>"
      and name = facture and hi = "[]" and pdf_pages = three_pages and doc = commande
      and p = as_they_are and hp = "[]" and pp = three_pages and ps = three_pages] l' q
  have "extract_data (extractor\<lparr>ocr_processor := Some as_they_are\<rparr>) [] three_pages facture
         commande =
       Inr (fst (foldl merge_item ([], []) (concat (map page_items three_pages))), three_pages,
            \<lparr>pdf_file = commande, prompt_name = facture,
             extracted_data =
               snd (foldl merge_item ([], []) (concat (map page_items three_pages)))\<rparr>)"
    by blast
  then have f: "extract_data (extractor\<lparr>ocr_processor := Some as_they_are\<rparr>) [] three_pages
         facture commande =
       Inr ([OList [?X, ?Y, ?Z]], three_pages,
            \<lparr>pdf_file = commande, prompt_name = facture, extracted_data = [(?k, PRef 0)]\<rparr>)"
    unfolding items run by simp
  from l e q f a b c d show ?thesis by simp
qed

subsection \<open>The lists of the pages\<close>

text \<open>
  The merge never touches a mapping object and never removes or changes an element of a list:
  it allocates, and it adds elements at the end of lists.
\<close>

lemma grown_refl: "grown h h"
  by (simp add: grown_def)

lemma grown_trans:
  assumes "grown h1 h2" and "grown h2 h3"
  shows "grown h1 h3"
  unfolding grown_def
proof (intro conjI allI impI)
  show "length h1 \<le> length h3" using assms by (simp add: grown_def)
next
  fix c kvs assume "c < length h1 \<and> h1 ! c = ODict kvs"
  then have "c < length h2 \<and> h2 ! c = ODict kvs" using assms(1) by (auto simp: grown_def)
  then show "h3 ! c = ODict kvs" using assms(2) by (auto simp: grown_def)
next
  fix c xs assume "c < length h1 \<and> h1 ! c = OList xs"
  then obtain m1 where "c < length h2 \<and> h2 ! c = OList (xs @ m1)"
    using assms(1) unfolding grown_def by (metis less_le_trans)
  then obtain m2 where "h3 ! c = OList ((xs @ m1) @ m2)"
    using assms(2) unfolding grown_def by metis
  then show "\<exists>more. h3 ! c = OList (xs @ more)" by auto
qed

lemma grown_update:
  "a < length h \<Longrightarrow> h ! a = OList xs \<Longrightarrow> grown h (h[a := OList (xs @ zs)])"
  by (auto simp: grown_def nth_list_update)

lemma grown_append: "grown h (h @ [ob])"
  by (auto simp: grown_def nth_append)

lemma merge_item_grown: "grown (fst st) (fst (merge_item st kv))"
proof (cases st; cases kv)
  fix h ed key val
  assume st: "st = (h, ed)" and kv: "kv = (key, val)"
  show ?thesis
  proof (cases "map_of ed key")
    case None
    then show ?thesis using st kv by (simp add: grown_refl)
  next
    case (Some cur)
    show ?thesis
    proof (cases "as_list h cur")
      case None
      then show ?thesis using st kv Some by (simp add: alloc_def grown_append)
    next
      case (Some p)
      then obtain a xs where p: "as_list h cur = Some (a, xs)" by (cases p) auto
      then have "a < length h" "h ! a = OList xs" using as_list_SomeD by blast+
      then have "grown h (h[a := OList (xs @ zs)])" for zs by (rule grown_update)
      then show ?thesis using st kv \<open>map_of ed key = Some cur\<close> p
        by (auto split: option.splits)
    qed
  qed
qed

lemma foldl_merge_item_grown: "grown (fst st) (fst (foldl merge_item st kvs))"
proof (induction kvs arbitrary: st)
  case Nil
  then show ?case by (simp add: grown_refl)
next
  case (Cons kv kvs)
  from grown_trans [OF merge_item_grown Cons [of "merge_item st kv"]] show ?case by simp
qed

lemma merge_pages_grown: "grown h (fst (merge_pages h pages))"
  using foldl_merge_item_grown [of "(h, [])"] by (simp add: merge_pages_items)

text \<open>
  Claim C4. The claim is that after the merge every page's \<^verbatim>\<open>ocr_contents\<close>, with the
  lists in it, is what it was before the call. The code binds a key seen for the first time
  to the very list object of the page (line 112) and later extends that object in place
  (lines 105 and 107). Here two pages hold a list under the key \<^verbatim>\<open>Ref\<close>: after the call
  the first page reads \<^verbatim>\<open>["A", "B"]\<close> where it read \<^verbatim>\<open>["A"]\<close>, and a second call on
  the same pages returns \<^verbatim>\<open>["A", "B", "B"]\<close>.
\<close>

theorem merge_extends_list_of_first_page:
  "extract_data extractor list_store list_pages facture commande =
     Inr ([OList [PStr (lit ''A''), PStr (lit ''B'')], OList [PStr (lit ''B'')]], list_pages,
          \<lparr>pdf_file = commande, prompt_name = facture,
           extracted_data = [(lit ''Ref'', PRef 0)]\<rparr>)
   \<and> reify_dict 3 list_store (page_items (list_pages ! 0)) =
       Some (JDict [(lit ''Ref'', JList [JStr (lit ''A'')])])
   \<and> reify_dict 3 [OList [PStr (lit ''A''), PStr (lit ''B'')], OList [PStr (lit ''B'')]]
         (page_items (list_pages ! 0)) =
       Some (JDict [(lit ''Ref'', JList [JStr (lit ''A''), JStr (lit ''B'')])])
   \<and> extract_data extractor
         [OList [PStr (lit ''A''), PStr (lit ''B'')], OList [PStr (lit ''B'')]]
         list_pages facture commande =
     Inr ([OList [PStr (lit ''A''), PStr (lit ''B''), PStr (lit ''B'')], OList [PStr (lit ''B'')]],
          list_pages,
          \<lparr>pdf_file = commande, prompt_name = facture,
           extracted_data = [(lit ''Ref'', PRef 0)]\<rparr>)"
  by (simp add: extract_data_def extractor_def fallback_def merge_pages_def merge_page_def
      list_pages_def list_store_def page_with_def dict_keys_def as_list_def
      heap_get_def alloc_def reify_dict_def page_items_def numeral_3_eq_3)

section \<open>The projection into tables\<close>

subsection \<open>One item\<close>

lemma project_item_record:
  "\<not> is_general kv \<Longrightarrow>
   project_item pd dfs kv =
     (case frame_of_records pd (records_of (snd kv)) of
        Inl e \<Rightarrow> Inl e
      | Inr df \<Rightarrow> Inr (dict_set dfs (fst kv) df))"
  by (auto simp: project_item_def is_general_def records_of_def Let_def)

lemma convert_column_single: "convert_column pd [c] = [c]"
  by (simp add: convert_column_def)

lemma frame_setitem_one:
  "index_len g = 1 \<Longrightarrow> frame_setitem pd g k [c] = Inr (g\<lparr>cols := dict_set (cols g) k [c]\<rparr>)"
  by (simp add: frame_setitem_def convert_column_single)

lemma frame_setitem_empty:
  "frame_setitem pd empty_frame k [c] = Inr \<lparr>index_len = 1, cols = [(k, [c])]\<rparr>"
  by (simp add: frame_setitem_def empty_frame_def convert_column_single)

lemma dict_set_twice: "dict_set (dict_set d k v) k v' = dict_set d k v'"
  by (induction d k v rule: dict_set.induct) auto

lemma frame_cols_update:
  "index_len g = n \<Longrightarrow> g\<lparr>cols := cs\<rparr> = \<lparr>index_len = n, cols = cs\<rparr>"
  by (cases g) simp

lemma project_item_general:
  assumes "is_general kv" and "general_ok dfs"
  shows "project_item pd dfs kv =
           Inr (dict_set dfs general_label
                  \<lparr>index_len = 1, cols = set_cell (general_cols dfs) kv\<rparr>)"
proof (cases "map_of dfs general_label")
  case None
  then have "general_label \<notin> set (dict_keys dfs)" by (simp add: map_of_None_keys)
  then show ?thesis using assms None
    by (simp add: project_item_def is_general_def Let_def map_of_dict_set frame_setitem_empty
        general_cols_def set_cell_def dict_set_twice)
next
  case (Some g)
  then have "general_label \<in> set (dict_keys dfs)"
    using map_of_None_keys [of dfs general_label] by auto
  moreover have "index_len g = 1" using assms(2) Some by (simp add: general_ok_def)
  ultimately show ?thesis using assms Some
    by (simp add: project_item_def is_general_def Let_def frame_setitem_one
        general_cols_def set_cell_def frame_cols_update [of g 1])
qed

lemma project_item_keys:
  "project_item pd dfs kv = Inr dfs' \<Longrightarrow> dict_keys dfs' = see (dict_keys dfs) (table_name kv)"
proof (cases "is_general kv")
  case False
  assume "project_item pd dfs kv = Inr dfs'"
  then show ?thesis using False
    by (auto simp: project_item_record table_name_def dict_keys_dict_set split: sum.splits)
next
  case True
  assume a: "project_item pd dfs kv = Inr dfs'"
  have s: "see (see (dict_keys dfs) general_label) general_label = see (dict_keys dfs) general_label"
    by (simp add: see_def)
  from a True show ?thesis
    by (auto simp: project_item_def is_general_def table_name_def Let_def dict_keys_dict_set s
        see_def
        split: sum.splits option.splits if_splits)
qed

lemma project_item_other:
  "project_item pd dfs kv = Inr dfs' \<Longrightarrow> n \<noteq> table_name kv \<Longrightarrow> map_of dfs' n = map_of dfs n"
  by (auto simp: project_item_def is_general_def table_name_def Let_def map_of_dict_set
      split: sum.splits option.splits if_splits)

lemma project_items_keys:
  "project_items pd dfs kvs = Inr tables \<Longrightarrow>
     dict_keys tables = foldl see (dict_keys dfs) (map table_name kvs)"
  by (induction kvs arbitrary: dfs) (auto simp: project_item_keys split: sum.splits)

lemma project_items_other:
  "project_items pd dfs kvs = Inr tables \<Longrightarrow> n \<notin> set (map table_name kvs) \<Longrightarrow>
     map_of tables n = map_of dfs n"
  by (induction kvs arbitrary: dfs) (auto simp: project_item_other split: sum.splits)


lemma not_named:
  "k \<notin> set (dict_keys kvs) \<Longrightarrow> k \<noteq> general_label \<Longrightarrow> k \<notin> set (map table_name kvs)"
  by (induction kvs) (auto simp: dict_keys_def table_name_def)

subsection \<open>The tables of records\<close>

lemma project_items_record:
  assumes "project_items pd dfs kvs = Inr tables"
    and "distinct (dict_keys kvs)" and "general_label \<notin> set (dict_keys kvs)"
    and "kv \<in> set kvs" and "\<not> is_general kv"
  shows "\<exists>df. map_of tables (fst kv) = Some df \<and> frame_of_records pd (records_of (snd kv)) = Inr df"
  using assms
proof (induction kvs arbitrary: dfs)
  case Nil
  then show ?case by simp
next
  case (Cons x xs)
  from Cons.prems(1) obtain dfs' where
    step: "project_item pd dfs x = Inr dfs'" and rest: "project_items pd dfs' xs = Inr tables"
    by (auto split: sum.splits)
  from Cons.prems(2,3) have d: "distinct (dict_keys xs)" "general_label \<notin> set (dict_keys xs)"
    "fst x \<notin> set (dict_keys xs)" "fst x \<noteq> general_label"
    by (auto simp: dict_keys_def)
  show ?case
  proof (cases "kv = x")
    case True
    from step True Cons.prems(5) obtain df where
      df: "frame_of_records pd (records_of (snd kv)) = Inr df" "dfs' = dict_set dfs (fst kv) df"
      by (auto simp: project_item_record split: sum.splits)
    have "fst kv \<notin> set (map table_name xs)" using d True not_named by blast
    then have "map_of tables (fst kv) = map_of dfs' (fst kv)"
      using project_items_other [OF rest] by blast
    then show ?thesis using df by (simp add: map_of_dict_set)
  next
    case False
    then have "kv \<in> set xs" using Cons.prems(4) by simp
    from Cons.IH [OF rest d(1,2) this Cons.prems(5)] show ?thesis .
  qed
qed

subsection \<open>The general table\<close>

lemma general_after_record:
  "project_item pd dfs kv = Inr dfs' \<Longrightarrow> \<not> is_general kv \<Longrightarrow> fst kv \<noteq> general_label \<Longrightarrow>
     general_cols dfs' = general_cols dfs \<and> general_ok dfs' = general_ok dfs"
  by (auto simp: project_item_record general_cols_def general_ok_def map_of_dict_set
      split: sum.splits)

lemma general_after_general:
  "is_general kv \<Longrightarrow> general_ok dfs \<Longrightarrow> project_item pd dfs kv = Inr dfs' \<Longrightarrow>
     general_cols dfs' = set_cell (general_cols dfs) kv \<and> general_ok dfs'"
  by (auto simp: project_item_general general_cols_def general_ok_def map_of_dict_set)

lemma project_items_general:
  assumes "project_items pd dfs kvs = Inr tables"
    and "general_ok dfs" and "general_label \<notin> set (dict_keys kvs)"
  shows "general_ok tables
       \<and> general_cols tables = foldl set_cell (general_cols dfs) (filter is_general kvs)"
  using assms
proof (induction kvs arbitrary: dfs)
  case Nil
  then show ?case by simp
next
  case (Cons x xs)
  from Cons.prems(1) obtain dfs' where
    step: "project_item pd dfs x = Inr dfs'" and rest: "project_items pd dfs' xs = Inr tables"
    by (auto split: sum.splits)
  from Cons.prems(3) have d: "general_label \<notin> set (dict_keys xs)" "fst x \<noteq> general_label"
    by (auto simp: dict_keys_def)
  show ?case
  proof (cases "is_general x")
    case True
    from general_after_general [OF True Cons.prems(2) step]
    have g: "general_cols dfs' = set_cell (general_cols dfs) x" "general_ok dfs'" by simp_all
    from Cons.IH [OF rest g(2) d(1)] g(1) True show ?thesis by simp
  next
    case False
    from general_after_record [OF step False d(2)] Cons.prems(2)
    have g: "general_cols dfs' = general_cols dfs" "general_ok dfs'" by simp_all
    from Cons.IH [OF rest g(2) d(1)] g(1) False show ?thesis by simp
  qed
qed

subsection \<open>When the loop returns\<close>

lemma records_in_dicts:
  "list_all is_dict recs \<Longrightarrow> records_in pd recs = Inr (map items_of recs)"
  by (induction recs) (auto simp: record_of_def is_dict_def items_of_def split: jvalue.splits)

lemma frame_of_dicts:
  "list_all is_dict recs \<Longrightarrow>
     frame_of_records pd recs =
       Inr \<lparr>index_len = length recs,
            cols = map (\<lambda>c. (c, convert_column pd (map (\<lambda>r. map_of (items_of r) c) recs)))
                     (first_appearance (concat (map (\<lambda>r. dict_keys (items_of r)) recs)))\<rparr>"
  by (simp add: frame_of_records_def records_in_dicts comp_def)

lemma frame_of_records_ok:
  "list_all is_dict recs \<Longrightarrow> \<exists>df. frame_of_records pd recs = Inr df"
  by (simp add: frame_of_dicts)

lemma records_of_ok: "\<not> is_general kv \<Longrightarrow> records_ok (snd kv) \<Longrightarrow> list_all is_dict (records_of (snd kv))"
  by (auto simp: is_general_def records_ok_def records_of_def)

lemma project_item_returns:
  assumes "general_ok dfs" and "records_ok (snd kv)"
  shows "\<exists>dfs'. project_item pd dfs kv = Inr dfs'"
proof (cases "is_general kv")
  case True
  then show ?thesis using assms(1) by (simp add: project_item_general)
next
  case False
  from frame_of_records_ok [OF records_of_ok [OF False assms(2)]]
  obtain df where "frame_of_records pd (records_of (snd kv)) = Inr df" by blast
  then show ?thesis using False by (simp add: project_item_record)
qed

lemma project_items_returns:
  assumes "general_ok dfs" and "general_label \<notin> set (dict_keys kvs)"
    and "list_all (\<lambda>kv. records_ok (snd kv)) kvs"
  shows "\<exists>tables. project_items pd dfs kvs = Inr tables"
  using assms
proof (induction kvs arbitrary: dfs)
  case Nil
  then show ?case by simp
next
  case (Cons x xs)
  from Cons.prems(3) have ok: "records_ok (snd x)" "list_all (\<lambda>kv. records_ok (snd kv)) xs"
    by simp_all
  from project_item_returns [OF Cons.prems(1) ok(1)] obtain dfs' where
    step: "project_item pd dfs x = Inr dfs'" by blast
  from Cons.prems(2) have d: "general_label \<notin> set (dict_keys xs)" "fst x \<noteq> general_label"
    by (auto simp: dict_keys_def)
  have "general_ok dfs'"
  proof (cases "is_general x")
    case True
    from general_after_general [OF True Cons.prems(1) step] show ?thesis by simp
  next
    case False
    from general_after_record [OF step False d(2)] Cons.prems(1) show ?thesis by simp
  qed
  from Cons.IH [OF this d(1) ok(2)] step show ?case by simp
qed


subsection \<open>First appearance\<close>

lemma set_foldl_see: "set (foldl see acc xs) = set acc \<union> set xs"
  by (induction xs arbitrary: acc) (auto simp: see_def)

lemma distinct_foldl_see: "distinct acc \<Longrightarrow> distinct (foldl see acc xs)"
  by (induction xs arbitrary: acc) (auto simp: see_def)

lemma set_first_appearance: "set (first_appearance xs) = set xs"
  by (simp add: first_appearance_def set_foldl_see)

subsection \<open>Frames built from records\<close>

lemma map_of_tabulate: "c \<in> set xs \<Longrightarrow> map_of (map (\<lambda>k. (k, f k)) xs) c = Some (f c)"
  by (induction xs) auto

lemma frame_of_records_props:
  assumes "frame_of_records pd recs = Inr df" and "list_all is_dict recs"
  shows "index_len df = length recs"
    and "dict_keys (cols df) =
           first_appearance (concat (map (\<lambda>r. dict_keys (items_of r)) recs))"
    and "c \<in> set (dict_keys (cols df)) \<Longrightarrow>
           map_of (cols df) c =
             Some (convert_column pd (map (\<lambda>r. map_of (items_of r) c) recs))"
proof -
  let ?ks = "first_appearance (concat (map (\<lambda>r. dict_keys (items_of r)) recs))"
  from assms have df: "df = \<lparr>index_len = length recs,
      cols = map (\<lambda>c. (c, convert_column pd (map (\<lambda>r. map_of (items_of r) c) recs))) ?ks\<rparr>"
    by (simp add: frame_of_dicts)
  show "index_len df = length recs" by (simp add: df)
  show k: "dict_keys (cols df) = ?ks" by (simp add: df dict_keys_def comp_def)
  assume "c \<in> set (dict_keys (cols df))"
  then have "c \<in> set ?ks" using k by simp
  then show "map_of (cols df) c =
      Some (convert_column pd (map (\<lambda>r. map_of (items_of r) c) recs))"
    by (simp add: df map_of_tabulate)
qed

subsection \<open>The cells of the general table\<close>

lemma keys_set_cell: "dict_keys (set_cell cs kv) = see (dict_keys cs) (fst kv)"
  by (simp add: set_cell_def dict_keys_dict_set)

lemma keys_foldl_set_cell:
  "dict_keys (foldl set_cell cs kvs) = foldl see (dict_keys cs) (dict_keys kvs)"
proof (induction kvs arbitrary: cs)
  case Nil
  then show ?case by (simp add: dict_keys_def)
next
  case (Cons kv kvs)
  have "dict_keys (kv # kvs) = fst kv # dict_keys kvs" by (simp add: dict_keys_def)
  then show ?case using Cons [of "set_cell cs kv"] by (simp add: keys_set_cell)
qed

lemma map_of_foldl_set_cell_other:
  "k \<notin> set (dict_keys kvs) \<Longrightarrow> map_of (foldl set_cell cs kvs) k = map_of cs k"
  by (induction kvs arbitrary: cs) (auto simp: dict_keys_def set_cell_def map_of_dict_set)

lemma map_of_foldl_set_cell:
  "distinct (dict_keys kvs) \<Longrightarrow> kv \<in> set kvs \<Longrightarrow>
     map_of (foldl set_cell cs kvs) (fst kv) = Some [Some (snd kv)]"
proof (induction kvs arbitrary: cs)
  case Nil
  then show ?case by simp
next
  case (Cons x xs)
  from Cons.prems(1) have d: "distinct (dict_keys xs)" "fst x \<notin> set (dict_keys xs)"
    by (auto simp: dict_keys_def)
  show ?case
  proof (cases "kv = x")
    case True
    have "map_of (foldl set_cell (set_cell cs x) xs) (fst x) = map_of (set_cell cs x) (fst x)"
      using d(2) by (rule map_of_foldl_set_cell_other)
    also have "\<dots> = Some [Some (snd x)]" by (simp add: set_cell_def map_of_dict_set)
    finally show ?thesis using True by simp
  next
    case False
    then have "kv \<in> set xs" using Cons.prems(2) by simp
    from Cons.IH [OF d(1) this] show ?thesis by simp
  qed
qed

lemma foldl_set_cell_fresh:
  "distinct (dict_keys kvs) \<Longrightarrow> set (dict_keys kvs) \<inter> set (dict_keys cs) = {} \<Longrightarrow>
     foldl set_cell cs kvs = cs @ map (\<lambda>kv. (fst kv, [Some (snd kv)])) kvs"
proof (induction kvs arbitrary: cs)
  case Nil
  then show ?case by simp
next
  case (Cons x xs)
  have k: "dict_keys (x # xs) = fst x # dict_keys xs" by (simp add: dict_keys_def)
  from Cons.prems k have absent: "map_of cs (fst x) = None" by (simp add: map_of_None_keys)
  then have step: "set_cell cs x = cs @ [(fst x, [Some (snd x)])]"
    by (simp add: set_cell_def dict_set_absent)
  have "dict_keys (cs @ [(fst x, [Some (snd x)])]) = dict_keys cs @ [fst x]"
    by (simp add: dict_keys_def)
  with Cons.prems k have
    "distinct (dict_keys xs)"
    "set (dict_keys xs) \<inter> set (dict_keys (cs @ [(fst x, [Some (snd x)])])) = {}"
    by auto
  from Cons.IH [OF this] step show ?case by simp
qed

lemma distinct_filter_keys: "distinct (dict_keys kvs) \<Longrightarrow> distinct (dict_keys (filter P kvs))"
  by (simp add: dict_keys_def distinct_map_filter)

lemma project_items_nonempty:
  "project_items pd dfs kvs = Inr tables \<Longrightarrow> kvs \<noteq> [] \<Longrightarrow> tables \<noteq> []"
proof -
  assume a: "project_items pd dfs kvs = Inr tables" and n: "kvs \<noteq> []"
  from project_items_keys [OF a] have "set (dict_keys tables) = set (dict_keys dfs) \<union> set (map table_name kvs)"
    by (simp add: set_foldl_see)
  then have "set (dict_keys tables) \<noteq> {}" using n by simp
  then show ?thesis by (auto simp: dict_keys_def)
qed

lemma create_of_dict:
  "extracted_data er = JDict kvs \<Longrightarrow> kvs \<noteq> [] \<Longrightarrow>
     create_dataframe_from_extraction_result pd er = project_items pd [] kvs"
  using project_items_nonempty [of pd "[]" kvs]
  by (auto simp: create_dataframe_from_extraction_result_def truthy_def is_str_def is_dict_def
      items_of_def Let_def split: sum.splits)

lemma general_label_neq:
  "lit ''Client'' \<noteq> general_label" "lit ''Items'' \<noteq> general_label"
  "lit ''InvoiceNumber'' \<noteq> general_label"
  "general_label \<noteq> lit ''Client''" "general_label \<noteq> lit ''Items''"
  "general_label \<noteq> lit ''InvoiceNumber''"
  by (simp_all add: general_label_def lit_def)

subsection \<open>The classification of the keys\<close>

text \<open>
  Claim C3, as amended. Let \<^verbatim>\<open>extracted_data\<close> be a non-empty mapping none of whose keys is
  the label of the general table, and in which every list that starts with a mapping holds
  mappings only. Then \<^verbatim>\<open>create_dataframe_from_extraction_result\<close> returns, and its tables
  are named in the order of the keys, a key of the third kind standing for the general label.
  A key whose value is a non-empty list starting with a mapping has a table of its name with
  one row per element; a key whose value is a mapping has a table of its name with the one
  row of that mapping; in both, the columns are the keys of the records in the order first
  seen, and a column holds what pandas stores for the values the records have for it, a
  record without the key giving a missing cell: the values themselves when the table has one
  row or the column holds a list or a mapping, and otherwise each value as the dtype inferred
  for the column stores it (an integer beside a missing entry as a float). Every other key
  is a column of the general table, which has one row and whose columns are exactly these
  keys in order, each with its value as the cell.
\<close>

theorem classification:
  assumes "extracted_data er = JDict kvs" and "kvs \<noteq> []" and "distinct (dict_keys kvs)"
    and "general_label \<notin> set (dict_keys kvs)"
    and "list_all (\<lambda>kv. records_ok (snd kv)) kvs"
  shows "\<exists>tables. create_dataframe_from_extraction_result pd er = Inr tables
     \<and> dict_keys tables = first_appearance (map table_name kvs)
     \<and> (\<forall>kv \<in> set kvs.
          (\<not> is_general kv \<longrightarrow>
             (\<exists>df. map_of tables (fst kv) = Some df
                \<and> index_len df = length (records_of (snd kv))
                \<and> dict_keys (cols df) =
                    first_appearance (concat (map (\<lambda>r. dict_keys (items_of r)) (records_of (snd kv))))
                \<and> (\<forall>c \<in> set (dict_keys (cols df)).
                      map_of (cols df) c =
                        Some (convert_column pd
                                (map (\<lambda>r. map_of (items_of r) c) (records_of (snd kv)))))
                \<and> (\<forall>c \<in> set (dict_keys (cols df)).
                      length (records_of (snd kv)) = 1 \<longrightarrow>
                      map_of (cols df) c =
                        Some (map (\<lambda>r. map_of (items_of r) c) (records_of (snd kv))))))
        \<and> (is_record_list (snd kv) \<longrightarrow> records_of (snd kv) = elements_of (snd kv))
        \<and> (is_dict (snd kv) \<longrightarrow> records_of (snd kv) = [snd kv])
        \<and> (is_general kv \<longrightarrow>
             (\<exists>g. map_of tables general_label = Some g \<and> index_len g = 1
                \<and> map_of (cols g) (fst kv) = Some [Some (snd kv)])))
     \<and> general_cols tables = map (\<lambda>kv. (fst kv, [Some (snd kv)])) (filter is_general kvs)"
proof -
  have g0: "general_ok []" "general_cols [] = []"
    by (simp_all add: general_ok_def general_cols_def)
  from project_items_returns [OF g0(1) assms(4,5)] obtain tables where
    run: "project_items pd [] kvs = Inr tables" by blast
  have ret: "create_dataframe_from_extraction_result pd er = Inr tables"
    using create_of_dict [OF assms(1,2)] run by simp
  have keys: "dict_keys tables = first_appearance (map table_name kvs)"
    using project_items_keys [OF run] by (simp add: first_appearance_def dict_keys_def)
  from project_items_general [OF run g0(1) assms(4)] g0(2)
  have gok: "general_ok tables"
    and gcols: "general_cols tables = foldl set_cell [] (filter is_general kvs)" by simp_all
  have dg: "distinct (dict_keys (filter is_general kvs))"
    using assms(3) by (rule distinct_filter_keys)
  have gen: "general_cols tables = map (\<lambda>kv. (fst kv, [Some (snd kv)])) (filter is_general kvs)"
    using foldl_set_cell_fresh [OF dg, of "[]"] gcols by (simp add: dict_keys_def)
  have each: "(\<not> is_general kv \<longrightarrow>
             (\<exists>df. map_of tables (fst kv) = Some df
                \<and> index_len df = length (records_of (snd kv))
                \<and> dict_keys (cols df) =
                    first_appearance (concat (map (\<lambda>r. dict_keys (items_of r)) (records_of (snd kv))))
                \<and> (\<forall>c \<in> set (dict_keys (cols df)).
                      map_of (cols df) c =
                        Some (convert_column pd
                                (map (\<lambda>r. map_of (items_of r) c) (records_of (snd kv)))))
                \<and> (\<forall>c \<in> set (dict_keys (cols df)).
                      length (records_of (snd kv)) = 1 \<longrightarrow>
                      map_of (cols df) c =
                        Some (map (\<lambda>r. map_of (items_of r) c) (records_of (snd kv))))))
        \<and> (is_record_list (snd kv) \<longrightarrow> records_of (snd kv) = elements_of (snd kv))
        \<and> (is_dict (snd kv) \<longrightarrow> records_of (snd kv) = [snd kv])
        \<and> (is_general kv \<longrightarrow>
             (\<exists>g. map_of tables general_label = Some g \<and> index_len g = 1
                \<and> map_of (cols g) (fst kv) = Some [Some (snd kv)]))"
    if mem: "kv \<in> set kvs" for kv
  proof (intro conjI impI)
    assume ng: "\<not> is_general kv"
    from project_items_record [OF run assms(3,4) mem ng] obtain df where
      df: "map_of tables (fst kv) = Some df" "frame_of_records pd (records_of (snd kv)) = Inr df"
      by blast
    have "records_ok (snd kv)" using assms(5) mem by (simp add: list_all_iff)
    note props = frame_of_records_props [OF df(2) records_of_ok [OF ng this]]
    have one: "map_of (cols df) c =
        Some (map (\<lambda>r. map_of (items_of r) c) (records_of (snd kv)))"
      if "c \<in> set (dict_keys (cols df))" and "length (records_of (snd kv)) = 1" for c
      using props(3) [OF that(1)] that(2) by (simp add: convert_column_def)
    from props one df(1)
    show "\<exists>df. map_of tables (fst kv) = Some df
                \<and> index_len df = length (records_of (snd kv))
                \<and> dict_keys (cols df) =
                    first_appearance (concat (map (\<lambda>r. dict_keys (items_of r)) (records_of (snd kv))))
                \<and> (\<forall>c \<in> set (dict_keys (cols df)).
                      map_of (cols df) c =
                        Some (convert_column pd
                                (map (\<lambda>r. map_of (items_of r) c) (records_of (snd kv)))))
                \<and> (\<forall>c \<in> set (dict_keys (cols df)).
                      length (records_of (snd kv)) = 1 \<longrightarrow>
                      map_of (cols df) c =
                        Some (map (\<lambda>r. map_of (items_of r) c) (records_of (snd kv))))"
      by blast
  next
    assume "is_record_list (snd kv)"
    then show "records_of (snd kv) = elements_of (snd kv)" by (simp add: records_of_def)
  next
    assume "is_dict (snd kv)"
    then have "\<not> is_record_list (snd kv)"
      by (auto simp: is_dict_def is_record_list_def split: jvalue.splits)
    then show "records_of (snd kv) = [snd kv]" by (simp add: records_of_def)
  next
    assume g: "is_general kv"
    then have m: "kv \<in> set (filter is_general kvs)" using mem by simp
    from map_of_foldl_set_cell [OF dg m, of "[]"] gcols
    have c: "map_of (general_cols tables) (fst kv) = Some [Some (snd kv)]" by simp
    then obtain gt where gt: "map_of tables general_label = Some gt"
      by (auto simp: general_cols_def split: option.splits)
    then have "index_len gt = 1" "cols gt = general_cols tables"
      using gok by (simp_all add: general_ok_def general_cols_def)
    then show "\<exists>g. map_of tables general_label = Some g \<and> index_len g = 1
                \<and> map_of (cols g) (fst kv) = Some [Some (snd kv)]"
      using gt c by simp
  qed
  from ret keys gen each show ?thesis by blast
qed


text \<open>
  The theorem at a list of two records and a scalar: the tables, the general table, and the
  table of the list with its rows, its columns and the cells of one column.
\<close>

theorem classification_witness:
  "extracted_data (result_of invoice) = JDict invoice \<and> invoice \<noteq> []
   \<and> distinct (dict_keys invoice) \<and> general_label \<notin> set (dict_keys invoice)
   \<and> list_all (\<lambda>kv. records_ok (snd kv)) invoice
   \<and> (\<exists>tables. create_dataframe_from_extraction_result as_given (result_of invoice) = Inr tables
         \<and> dict_keys tables = [lit ''Items'', general_label]
         \<and> general_cols tables = [(lit ''InvoiceNumber'', [Some (JStr (lit ''123''))])]
         \<and> (\<exists>df. map_of tables (lit ''Items'') = Some df \<and> index_len df = 2
               \<and> dict_keys (cols df) = [lit ''sku'', lit ''qty'']
               \<and> map_of (cols df) (lit ''qty'') = Some [Some (JInt 2), Some (JInt 1)]))"
proof -
  let ?recs = "[JDict [(lit ''sku'', JStr (lit ''A'')), (lit ''qty'', JInt 2)],
                JDict [(lit ''sku'', JStr (lit ''B'')), (lit ''qty'', JInt 1)]]"
  let ?items = "(lit ''Items'', JList ?recs)"
  have h1: "extracted_data (result_of invoice) = JDict invoice" by (simp add: result_of_def)
  have h2: "invoice \<noteq> []" by (simp add: invoice_def)
  have ne: "lit ''Items'' \<noteq> lit ''InvoiceNumber''" by (simp add: lit_def)
  have nq: "lit ''sku'' \<noteq> lit ''qty''" "lit ''qty'' \<noteq> lit ''sku''" by (simp_all add: lit_def)
  have h3: "distinct (dict_keys invoice)" using ne by (simp add: invoice_def dict_keys_def)
  have h4: "general_label \<notin> set (dict_keys invoice)"
    by (simp add: invoice_def dict_keys_def general_label_neq)
  have h5: "list_all (\<lambda>kv. records_ok (snd kv)) invoice"
    by (simp add: invoice_def records_ok_def is_record_list_def is_dict_def elements_of_def)
  have n: "map table_name invoice = [lit ''Items'', general_label]"
    by (simp add: invoice_def table_name_def is_general_def is_record_list_def is_dict_def)
  have f: "filter is_general invoice = [(lit ''InvoiceNumber'', JStr (lit ''123''))]"
    by (simp add: invoice_def is_general_def is_record_list_def is_dict_def)
  have mem: "?items \<in> set invoice" by (simp add: invoice_def)
  have ng: "\<not> is_general ?items" by (simp add: is_general_def is_record_list_def is_dict_def)
  have recs: "records_of (snd ?items) = ?recs"
    by (simp add: records_of_def is_record_list_def is_dict_def elements_of_def)
  have ks: "first_appearance (concat (map (\<lambda>r. dict_keys (items_of r)) ?recs)) =
      [lit ''sku'', lit ''qty'']"
    using nq by (simp add: first_appearance_def see_def dict_keys_def items_of_def)
  have cells: "convert_column as_given (map (\<lambda>r. map_of (items_of r) (lit ''qty'')) ?recs) =
      [Some (JInt 2), Some (JInt 1)]"
    using nq by (simp add: convert_column_def convert_cell_def nested_def is_jlist_def is_dict_def
        as_given_def stored_as_def items_of_def)
  from classification [OF h1 h2 h3 h4 h5, of as_given] obtain tables where
    t: "create_dataframe_from_extraction_result as_given (result_of invoice) = Inr tables"
      "dict_keys tables = first_appearance (map table_name invoice)"
      "general_cols tables = map (\<lambda>kv. (fst kv, [Some (snd kv)])) (filter is_general invoice)"
    and each: "\<forall>kv \<in> set invoice.
          (\<not> is_general kv \<longrightarrow>
             (\<exists>df. map_of tables (fst kv) = Some df
                \<and> index_len df = length (records_of (snd kv))
                \<and> dict_keys (cols df) =
                    first_appearance (concat (map (\<lambda>r. dict_keys (items_of r)) (records_of (snd kv))))
                \<and> (\<forall>c \<in> set (dict_keys (cols df)).
                      map_of (cols df) c =
                        Some (convert_column as_given
                                (map (\<lambda>r. map_of (items_of r) c) (records_of (snd kv)))))
                \<and> (\<forall>c \<in> set (dict_keys (cols df)).
                      length (records_of (snd kv)) = 1 \<longrightarrow>
                      map_of (cols df) c =
                        Some (map (\<lambda>r. map_of (items_of r) c) (records_of (snd kv))))))
        \<and> (is_record_list (snd kv) \<longrightarrow> records_of (snd kv) = elements_of (snd kv))
        \<and> (is_dict (snd kv) \<longrightarrow> records_of (snd kv) = [snd kv])
        \<and> (is_general kv \<longrightarrow>
             (\<exists>g. map_of tables general_label = Some g \<and> index_len g = 1
                \<and> map_of (cols g) (fst kv) = Some [Some (snd kv)]))"
    by (elim exE conjE) (rule that; assumption)
  from bspec [OF each mem] have "\<not> is_general ?items \<longrightarrow>
             (\<exists>df. map_of tables (fst ?items) = Some df
                \<and> index_len df = length (records_of (snd ?items))
                \<and> dict_keys (cols df) =
                    first_appearance (concat (map (\<lambda>r. dict_keys (items_of r)) (records_of (snd ?items))))
                \<and> (\<forall>c \<in> set (dict_keys (cols df)).
                      map_of (cols df) c =
                        Some (convert_column as_given
                                (map (\<lambda>r. map_of (items_of r) c) (records_of (snd ?items)))))
                \<and> (\<forall>c \<in> set (dict_keys (cols df)).
                      length (records_of (snd ?items)) = 1 \<longrightarrow>
                      map_of (cols df) c =
                        Some (map (\<lambda>r. map_of (items_of r) c) (records_of (snd ?items)))))"
    by (rule conjunct1)
  with ng obtain df where
    df: "map_of tables (fst ?items) = Some df"
      "index_len df = length (records_of (snd ?items))"
      "dict_keys (cols df) =
         first_appearance (concat (map (\<lambda>r. dict_keys (items_of r)) (records_of (snd ?items))))"
      "\<forall>c \<in> set (dict_keys (cols df)).
          map_of (cols df) c =
            Some (convert_column as_given
                    (map (\<lambda>r. map_of (items_of r) c) (records_of (snd ?items))))"
    by blast
  from df(3) have k: "dict_keys (cols df) = [lit ''sku'', lit ''qty'']"
    unfolding recs ks .
  then have "lit ''qty'' \<in> set (dict_keys (cols df))" by simp
  with df(4) have "map_of (cols df) (lit ''qty'') =
      Some (convert_column as_given (map (\<lambda>r. map_of (items_of r) (lit ''qty'')) ?recs))"
    unfolding recs by blast
  then have c: "map_of (cols df) (lit ''qty'') = Some [Some (JInt 2), Some (JInt 1)]"
    unfolding cells .
  from df(1,2) have d: "map_of tables (lit ''Items'') = Some df" "index_len df = 2"
    unfolding recs by simp_all
  have "first_appearance [lit ''Items'', general_label] = [lit ''Items'', general_label]"
    by (simp add: first_appearance_def see_def general_label_neq)
  with t n f have t': "dict_keys tables = [lit ''Items'', general_label]"
    "general_cols tables = [(lit ''InvoiceNumber'', [Some (JStr (lit ''123''))])]"
    by simp_all
  from t(1) t' d k c have "\<exists>tables. create_dataframe_from_extraction_result as_given (result_of invoice) = Inr tables
         \<and> dict_keys tables = [lit ''Items'', general_label]
         \<and> general_cols tables = [(lit ''InvoiceNumber'', [Some (JStr (lit ''123''))])]
         \<and> (\<exists>df. map_of tables (lit ''Items'') = Some df \<and> index_len df = 2
               \<and> dict_keys (cols df) = [lit ''sku'', lit ''qty'']
               \<and> map_of (cols df) (lit ''qty'') = Some [Some (JInt 2), Some (JInt 1)])"
    by blast
  with h1 h2 h3 h4 h5 show ?thesis by blast
qed

text \<open>
  Claim C3 as stated fails in two ways. A mapping under the label of the general table
  replaces the general table, so the scalar \<^verbatim>\<open>Client\<close> seen before it is in no table. And
  for a list that starts with a mapping and holds a string there is no table with one row
  per element: pandas raises, here as a pandas does that reads each element with
  \<^verbatim>\<open>dict\<close> (an older one raises \<^verbatim>\<open>AttributeError\<close>, asking the string for its keys).
\<close>

theorem classification_counterexample:
  "create_dataframe_from_extraction_result as_given (result_of labelled) =
     Inr [(general_label,
           \<lparr>index_len = 1, cols = [(lit ''Adresse'', [Some (JStr (lit ''Paris''))])]\<rparr>)]
   \<and> map_of [(lit ''Adresse'', [Some (JStr (lit ''Paris''))])] (lit ''Client'') = None
   \<and> create_dataframe_from_extraction_result as_given (result_of mixed_list) =
       Inl (ValueError not_a_pair)"
proof -
  have ne: "lit ''Adresse'' \<noteq> lit ''Client''" by (simp add: lit_def)
  have nonempty: "lit ''total'' \<noteq> []" by (simp add: lit_def)
  have a: "create_dataframe_from_extraction_result as_given (result_of labelled) =
     Inr [(general_label,
           \<lparr>index_len = 1, cols = [(lit ''Adresse'', [Some (JStr (lit ''Paris''))])]\<rparr>)]"
    by (simp add: create_dataframe_from_extraction_result_def result_of_def labelled_def
        truthy_def is_str_def is_dict_def items_of_def project_item_def is_record_list_def
        dict_keys_def empty_frame_def frame_setitem_def frame_of_records_def record_of_def
        convert_column_def first_appearance_def see_def Let_def)
  have b: "create_dataframe_from_extraction_result as_given (result_of mixed_list) =
       Inl (ValueError not_a_pair)"
    using nonempty
    by (simp add: create_dataframe_from_extraction_result_def result_of_def mixed_list_def
        truthy_def is_str_def is_dict_def items_of_def project_item_def is_record_list_def
        elements_of_def frame_of_records_def record_of_def as_given_def Let_def)
  from a b ne show ?thesis by simp
qed

subsection \<open>The cells\<close>

lemma list_all_dict_set_snd:
  "list_all (\<lambda>x. Q (snd x)) d \<Longrightarrow> Q v \<Longrightarrow> list_all (\<lambda>x. Q (snd x)) (dict_set d k v)"
  by (induction d k v rule: dict_set.induct) auto

lemma map_of_scalar:
  "list_all (\<lambda>kv. scalar (snd kv)) kvs \<Longrightarrow> scalar_cell (map_of kvs c)"
  by (induction kvs) (auto simp: scalar_cell_def)

lemma scalar_value_of: "scalar (value_of s)"
  by (cases s) (simp_all add: scalar_def is_jlist_def is_dict_def)

lemma scalar_convert_cell: "scalar_cell (convert_cell pd cells c)"
  by (auto simp: convert_cell_def scalar_cell_def scalar_value_of split: option.splits)

lemma convert_column_scalar:
  "list_all scalar_cell cells \<Longrightarrow> list_all scalar_cell (convert_column pd cells)"
  by (simp add: convert_column_def list_all_iff scalar_convert_cell)

lemma frame_of_records_scalar:
  assumes "frame_of_records pd recs = Inr df" and "list_all flat_record recs"
  shows "scalar_frame df"
proof -
  have s: "list_all scalar_cell (map (\<lambda>r. map_of (items_of r) c) recs)" for c
    using assms(2) by (induction recs) (auto simp: flat_record_def map_of_scalar)
  have "list_all is_dict recs" using assms(2) by (simp add: flat_record_def list_all_iff)
  from frame_of_dicts [OF this] assms(1)
  have "df = \<lparr>index_len = length recs,
      cols = map (\<lambda>c. (c, convert_column pd (map (\<lambda>r. map_of (items_of r) c) recs)))
               (first_appearance (concat (map (\<lambda>r. dict_keys (items_of r)) recs)))\<rparr>"
    by simp
  then show ?thesis using convert_column_scalar [OF s]
    by (simp add: scalar_frame_def list_all_iff)
qed

lemma scalar_frame_cols:
  "scalar_frame g \<Longrightarrow> scalar_cell c \<Longrightarrow> scalar_frame (g\<lparr>cols := dict_set (cols g) k [c]\<rparr>)"
  by (simp add: scalar_frame_def list_all_dict_set_snd)

lemma scalar_frame_reindex:
  "scalar_frame \<lparr>index_len = n, cols = map (\<lambda>(c, _). (c, replicate n None)) cs\<rparr>"
  by (induction cs) (auto simp: scalar_frame_def scalar_cell_def list_all_iff)

lemma frame_setitem_scalar:
  assumes "frame_setitem pd g k [Some v] = Inr g'" and "scalar_frame g" and "scalar v"
  shows "scalar_frame g'"
proof -
  have c: "scalar_cell (Some v)" using assms(3) by (simp add: scalar_cell_def)
  show ?thesis
  proof (cases "index_len g = 0")
    case True
    let ?g1 = "\<lparr>index_len = 1, cols = map (\<lambda>(c, _). (c, replicate 1 None)) (cols g)\<rparr>"
    from assms(1) True have g': "g' = ?g1\<lparr>cols := dict_set (cols ?g1) k [Some v]\<rparr>"
      by (simp add: frame_setitem_def convert_column_single)
    have "scalar_frame (?g1\<lparr>cols := dict_set (cols ?g1) k [Some v]\<rparr>)"
      by (rule scalar_frame_cols [OF scalar_frame_reindex c])
    then show ?thesis unfolding g' .
  next
    case False
    with assms(1) have "g' = g\<lparr>cols := dict_set (cols g) k [Some v]\<rparr>"
      by (simp add: frame_setitem_def convert_column_single split: if_splits)
    then show ?thesis using scalar_frame_cols [OF assms(2) c] by simp
  qed
qed

lemma record_list_is_list: "is_record_list v \<Longrightarrow> is_jlist v"
  by (cases v) (simp_all add: is_record_list_def is_jlist_def)

lemma dict_not_list: "is_dict v \<Longrightarrow> \<not> is_jlist v"
  by (cases v) (simp_all add: is_dict_def is_jlist_def)

lemma flat_cases:
  assumes "flat v"
  shows "\<not> is_general (k, v) \<longrightarrow> list_all flat_record (records_of v)"
    and "is_general (k, v) \<longrightarrow> scalar v"
proof -
  show "\<not> is_general (k, v) \<longrightarrow> list_all flat_record (records_of v)"
  proof
    assume "\<not> is_general (k, v)"
    then have c: "is_record_list v \<or> is_dict v" by (simp add: is_general_def)
    show "list_all flat_record (records_of v)"
    proof (cases "is_record_list v")
      case True
      then have "\<not> scalar v" "\<not> flat_record v"
        using record_list_is_list dict_not_list by (auto simp: scalar_def flat_record_def)
      then show ?thesis using assms True by (simp add: flat_def records_of_def)
    next
      case False
      then have d: "is_dict v" using c by simp
      then have "\<not> scalar v" by (simp add: scalar_def)
      then show ?thesis using assms False by (simp add: flat_def records_of_def)
    qed
  qed
  show "is_general (k, v) \<longrightarrow> scalar v"
    using assms by (auto simp: flat_def is_general_def flat_record_def)
qed

lemma project_item_scalar:
  assumes "project_item pd dfs kv = Inr dfs'" and "list_all (\<lambda>t. scalar_frame (snd t)) dfs"
    and "flat (snd kv)"
  shows "list_all (\<lambda>t. scalar_frame (snd t)) dfs'"
proof (cases "is_general kv")
  case False
  from assms(1) False obtain df where
    df: "frame_of_records pd (records_of (snd kv)) = Inr df" "dfs' = dict_set dfs (fst kv) df"
    by (auto simp: project_item_record split: sum.splits)
  have "list_all flat_record (records_of (snd kv))"
    using flat_cases(1) [OF assms(3), of "fst kv"] False by simp
  from frame_of_records_scalar [OF df(1) this] show ?thesis
    using df(2) assms(2) by (simp add: list_all_dict_set_snd)
next
  case True
  have sv: "scalar (snd kv)" using flat_cases(2) [OF assms(3), of "fst kv"] True by simp
  define dfs1 where "dfs1 = (if general_label \<notin> set (dict_keys dfs)
                        then dict_set dfs general_label empty_frame else dfs)"
  have "scalar_frame empty_frame" by (simp add: scalar_frame_def empty_frame_def)
  then have s1: "list_all (\<lambda>t. scalar_frame (snd t)) dfs1"
    using assms(2) by (simp add: dfs1_def list_all_dict_set_snd)
  from assms(1) True obtain g g' where
    g: "map_of dfs1 general_label = Some g" "frame_setitem pd g (fst kv) [Some (snd kv)] = Inr g'"
      "dfs' = dict_set dfs1 general_label g'"
    by (auto simp: project_item_def is_general_def Let_def dfs1_def
        split: option.splits sum.splits if_splits)
  from g(1) have "(general_label, g) \<in> set dfs1" by (rule map_of_SomeD)
  then have "scalar_frame g" using s1 by (auto simp: list_all_iff)
  from frame_setitem_scalar [OF g(2) this sv] show ?thesis
    using g(3) s1 by (simp add: list_all_dict_set_snd)
qed

lemma project_items_scalar:
  "project_items pd dfs kvs = Inr tables \<Longrightarrow> list_all (\<lambda>t. scalar_frame (snd t)) dfs \<Longrightarrow>
   list_all (\<lambda>kv. flat (snd kv)) kvs \<Longrightarrow> list_all (\<lambda>t. scalar_frame (snd t)) tables"
proof (induction kvs arbitrary: dfs)
  case Nil
  then show ?case by simp
next
  case (Cons x xs)
  from Cons.prems(1) obtain dfs' where
    step: "project_item pd dfs x = Inr dfs'" and rest: "project_items pd dfs' xs = Inr tables"
    by (auto split: sum.splits)
  from Cons.prems(3) have f: "flat (snd x)" "list_all (\<lambda>kv. flat (snd kv)) xs" by simp_all
  from Cons.IH [OF rest project_item_scalar [OF step Cons.prems(2) f(1)] f(2)] show ?case .
qed

lemma placeholder_frame:
  "frame_of_records pd [JDict placeholder] =
     Inr \<lparr>index_len = 1, cols = map (\<lambda>kv. (fst kv, [Some (snd kv)])) placeholder\<rparr>"
  by (simp add: frame_of_records_def record_of_def placeholder_def dict_keys_def
      first_appearance_def see_def convert_column_single)

lemma create_placeholder:
  "\<not> truthy (extracted_data er) \<or> is_str (extracted_data er) \<Longrightarrow>
     create_dataframe_from_extraction_result pd er = Inr placeholder_tables"
  by (auto simp: create_dataframe_from_extraction_result_def placeholder_frame
      placeholder_tables_def Let_def)

lemma create_cases:
  assumes "create_dataframe_from_extraction_result pd er = Inr tables"
  shows "tables = placeholder_tables
       \<or> (\<exists>kvs. extracted_data er = JDict kvs \<and> kvs \<noteq> [] \<and> project_items pd [] kvs = Inr tables)"
proof (cases "\<not> truthy (extracted_data er) \<or> is_str (extracted_data er)")
  case True
  from create_placeholder [OF this] assms show ?thesis by simp
next
  case False
  then have "is_dict (extracted_data er)" using assms
    by (auto simp: create_dataframe_from_extraction_result_def Let_def split: if_splits)
  then obtain kvs where k: "extracted_data er = JDict kvs"
    by (auto simp: is_dict_def split: jvalue.splits)
  then have "kvs \<noteq> []" using False by (auto simp: truthy_def)
  then show ?thesis using k create_of_dict [OF k] assms by simp
qed

text \<open>
  Claim C5, as amended. The cells are what pandas stores for the values found in the data:
  when every top-level value is a scalar, a mapping of scalars or a non-empty list of
  mappings of scalars, every cell of every table returned is a scalar or missing. Nothing in
  the code flattens a list or a mapping that lies deeper.
\<close>

theorem cells_scalar_for_flat_data:
  assumes "create_dataframe_from_extraction_result pd er = Inr tables"
    and "list_all (\<lambda>kv. flat (snd kv)) (items_of (extracted_data er))"
  shows "list_all (\<lambda>t. scalar_frame (snd t)) tables"
proof -
  from create_cases [OF assms(1)] show ?thesis
  proof
    assume "tables = placeholder_tables"
    then show ?thesis
      by (simp add: placeholder_tables_def placeholder_def scalar_frame_def scalar_cell_def
          scalar_def is_jlist_def is_dict_def)
  next
    assume "\<exists>kvs. extracted_data er = JDict kvs \<and> kvs \<noteq> [] \<and> project_items pd [] kvs = Inr tables"
    then obtain kvs where k: "extracted_data er = JDict kvs" "project_items pd [] kvs = Inr tables"
      by blast
    from assms(2) k(1) have "list_all (\<lambda>kv. flat (snd kv)) kvs" by (simp add: items_of_def)
    from project_items_scalar [OF k(2) _ this] show ?thesis by simp
  qed
qed

lemma invoice_tables:
  "create_dataframe_from_extraction_result as_given (result_of invoice) =
     Inr [(lit ''Items'',
           \<lparr>index_len = 2,
            cols = [(lit ''sku'', [Some (JStr (lit ''A'')), Some (JStr (lit ''B''))]),
                    (lit ''qty'', [Some (JInt 2), Some (JInt 1)])]\<rparr>),
          (general_label,
           \<lparr>index_len = 1, cols = [(lit ''InvoiceNumber'', [Some (JStr (lit ''123''))])]\<rparr>)]"
proof -
  have ne: "lit ''sku'' \<noteq> lit ''qty''" "lit ''qty'' \<noteq> lit ''sku''" by (simp_all add: lit_def)
  show ?thesis using ne
    by (simp add: create_dataframe_from_extraction_result_def result_of_def invoice_def
        truthy_def is_str_def is_dict_def items_of_def project_item_def is_record_list_def
        elements_of_def dict_keys_def empty_frame_def frame_setitem_def frame_of_records_def
        record_of_def convert_column_def convert_cell_def nested_def is_jlist_def
        as_given_def stored_as_def first_appearance_def see_def Let_def general_label_neq)
qed

text \<open>The theorem at a list of two records of scalars and a scalar.\<close>

theorem cells_scalar_witness:
  "list_all (\<lambda>kv. flat (snd kv)) (items_of (extracted_data (result_of invoice)))
   \<and> list_all (\<lambda>t. scalar_frame (snd t))
        [(lit ''Items'',
           \<lparr>index_len = 2,
            cols = [(lit ''sku'', [Some (JStr (lit ''A'')), Some (JStr (lit ''B''))]),
                    (lit ''qty'', [Some (JInt 2), Some (JInt 1)])]\<rparr>),
          (general_label,
           \<lparr>index_len = 1, cols = [(lit ''InvoiceNumber'', [Some (JStr (lit ''123''))])]\<rparr>)]"
proof -
  have f: "list_all (\<lambda>kv. flat (snd kv)) (items_of (extracted_data (result_of invoice)))"
    by (simp add: result_of_def invoice_def items_of_def flat_def flat_record_def scalar_def
        is_record_list_def is_dict_def is_jlist_def elements_of_def)
  from cells_scalar_for_flat_data [OF invoice_tables f] f show ?thesis by simp
qed

text \<open>
  Claim C5 as stated fails: a list of scalars, as the merge makes of a key that two pages
  hold, is the cell of its column in the general table, and a list inside a record is the
  cell of its column in the table of the record.
\<close>

theorem cells_scalar_counterexample:
  "create_dataframe_from_extraction_result as_given (result_of merged_total) =
     Inr [(general_label,
           \<lparr>index_len = 1, cols = [(lit ''Total'', [Some (JList [JInt 100, JInt 20])])]\<rparr>)]
   \<and> \<not> scalar (JList [JInt 100, JInt 20])
   \<and> create_dataframe_from_extraction_result as_given (result_of client_record) =
     Inr [(lit ''Client'',
           \<lparr>index_len = 1,
            cols = [(lit ''nom'', [Some (JStr (lit ''Acme''))]),
                    (lit ''contacts'',
                     [Some (JList [JStr (lit ''a@acme.fr''), JStr (lit ''b@acme.fr'')])])]\<rparr>)]
   \<and> \<not> scalar (JList [JStr (lit ''a@acme.fr''), JStr (lit ''b@acme.fr'')])"
proof -
  have ne: "lit ''nom'' \<noteq> lit ''contacts''" "lit ''contacts'' \<noteq> lit ''nom''"
    by (simp_all add: lit_def)
  have a: "create_dataframe_from_extraction_result as_given (result_of merged_total) =
     Inr [(general_label,
           \<lparr>index_len = 1, cols = [(lit ''Total'', [Some (JList [JInt 100, JInt 20])])]\<rparr>)]"
    by (simp add: create_dataframe_from_extraction_result_def result_of_def merged_total_def
        truthy_def is_str_def is_dict_def items_of_def project_item_def is_record_list_def
        dict_keys_def empty_frame_def frame_setitem_def convert_column_def Let_def)
  have b: "create_dataframe_from_extraction_result as_given (result_of client_record) =
     Inr [(lit ''Client'',
           \<lparr>index_len = 1,
            cols = [(lit ''nom'', [Some (JStr (lit ''Acme''))]),
                    (lit ''contacts'',
                     [Some (JList [JStr (lit ''a@acme.fr''), JStr (lit ''b@acme.fr'')])])]\<rparr>)]"
    using ne
    by (simp add: create_dataframe_from_extraction_result_def result_of_def client_record_def
        truthy_def is_str_def is_dict_def items_of_def project_item_def is_record_list_def
        dict_keys_def frame_of_records_def record_of_def convert_column_def
        first_appearance_def see_def Let_def)
  from a b show ?thesis by (simp add: scalar_def is_jlist_def)
qed

subsection \<open>Data that cannot be projected\<close>

lemma new_ExtractionResult_dict:
  "new_ExtractionResult (JStr f) n (JDict d) =
     Inr \<lparr>pdf_file = f, prompt_name = n, extracted_data = JDict d\<rparr>"
  by (simp add: new_ExtractionResult_def validate_str_def validate_dict_def)

text \<open>
  Claim C6, as amended. For an \<^verbatim>\<open>ExtractionResult\<close> whose data is empty (false in Python)
  or a string, \<^verbatim>\<open>create_dataframe_from_extraction_result\<close> returns one table of one row
  and one column with the placeholder message. \<^verbatim>\<open>extract_dataframes_from_ocr_json\<close>
  returns that table for an empty mapping and raises \<^verbatim>\<open>TypeError\<close> for an argument that
  is not a mapping (nor one of the two models), a raw scalar or an error string among them.
  For a raw mapping that has a string under \<^verbatim>\<open>file_name\<close> and, under \<^verbatim>\<open>ocr_contents\<close>,
  a value that is not a mapping, it raises the validation error of the construction; a raw
  mapping that lacks one of the two keys is taken for the data itself.
\<close>

theorem placeholder_for_empty_or_string:
  "(\<not> truthy (extracted_data er) \<or> is_str (extracted_data er) \<longrightarrow>
      create_dataframe_from_extraction_result pd er = Inr placeholder_tables)
   \<and> (\<not> is_dict v \<longrightarrow>
        extract_dataframes_from_ocr_json pd (OfValue v) = Inl (TypeError (unsupported v)))
   \<and> extract_dataframes_from_ocr_json pd (OfValue (JDict [])) = Inr placeholder_tables
   \<and> (map_of d (lit ''file_name'') = Some (JStr f) \<and> map_of d (lit ''ocr_contents'') = Some c
        \<and> \<not> is_dict c \<longrightarrow>
        extract_dataframes_from_ocr_json pd (OfValue (JDict d)) =
          Inl (ValidationError not_a_dict))
   \<and> (lit ''file_name'' \<notin> set (dict_keys d') \<or> lit ''ocr_contents'' \<notin> set (dict_keys d') \<longrightarrow>
        extract_dataframes_from_ocr_json pd (OfValue (JDict d')) =
          create_dataframe_from_extraction_result pd
            \<lparr>pdf_file = lit ''document.pdf'', prompt_name = lit ''default'',
             extracted_data = JDict d'\<rparr>)
   \<and> length placeholder_tables = 1
   \<and> list_all (\<lambda>t. index_len (snd t) = 1 \<and> length (cols (snd t)) = 1) placeholder_tables"
proof (intro conjI impI)
  assume "\<not> truthy (extracted_data er) \<or> is_str (extracted_data er)"
  then show "create_dataframe_from_extraction_result pd er = Inr placeholder_tables"
    by (rule create_placeholder)
next
  assume "\<not> is_dict v"
  then show "extract_dataframes_from_ocr_json pd (OfValue v) = Inl (TypeError (unsupported v))"
    by (simp add: extract_dataframes_from_ocr_json_def)
next
  have "\<not> truthy (extracted_data \<lparr>pdf_file = lit ''document.pdf'', prompt_name = lit ''default'',
            extracted_data = JDict []\<rparr>)"
    by (simp add: truthy_def)
  then show "extract_dataframes_from_ocr_json pd (OfValue (JDict [])) = Inr placeholder_tables"
    by (simp add: extract_dataframes_from_ocr_json_def is_dict_def items_of_def dict_keys_def
        new_ExtractionResult_dict create_placeholder)
next
  assume a: "map_of d (lit ''file_name'') = Some (JStr f) \<and> map_of d (lit ''ocr_contents'') = Some c
        \<and> \<not> is_dict c"
  then have k: "lit ''file_name'' \<in> set (dict_keys d)" "lit ''ocr_contents'' \<in> set (dict_keys d)"
    using map_of_None_keys [of d "lit ''file_name''"] map_of_None_keys [of d "lit ''ocr_contents''"]
    by auto
  from a have "new_ExtractionResult (JStr f) (lit ''default'') c = Inl (ValidationError not_a_dict)"
    by (cases c) (simp_all add: new_ExtractionResult_def validate_str_def validate_dict_def is_dict_def)
  then show "extract_dataframes_from_ocr_json pd (OfValue (JDict d)) =
          Inl (ValidationError not_a_dict)"
    using a k by (simp add: extract_dataframes_from_ocr_json_def is_dict_def items_of_def)
next
  assume "lit ''file_name'' \<notin> set (dict_keys d') \<or> lit ''ocr_contents'' \<notin> set (dict_keys d')"
  then show "extract_dataframes_from_ocr_json pd (OfValue (JDict d')) =
          create_dataframe_from_extraction_result pd
            \<lparr>pdf_file = lit ''document.pdf'', prompt_name = lit ''default'',
             extracted_data = JDict d'\<rparr>"
    by (auto simp: extract_dataframes_from_ocr_json_def is_dict_def items_of_def
        new_ExtractionResult_dict)
next
  show "length placeholder_tables = 1" by (simp add: placeholder_tables_def)
  show "list_all (\<lambda>t. index_len (snd t) = 1 \<and> length (cols (snd t)) = 1) placeholder_tables"
    by (simp add: placeholder_tables_def placeholder_def)
qed

text \<open>
  The theorem at a result holding an error string, at the integer 5, at a raw mapping whose
  \<^verbatim>\<open>ocr_contents\<close> is an error string, and at a raw mapping without \<^verbatim>\<open>file_name\<close>.
\<close>

theorem placeholder_witness:
  "is_str (extracted_data (\<lparr>pdf_file = commande, prompt_name = facture,
       extracted_data = JStr (lit ''Erreur OCR'')\<rparr>))
   \<and> create_dataframe_from_extraction_result as_given
        \<lparr>pdf_file = commande, prompt_name = facture, extracted_data = JStr (lit ''Erreur OCR'')\<rparr>
      = Inr placeholder_tables
   \<and> \<not> is_dict (JInt 5)
   \<and> extract_dataframes_from_ocr_json as_given (OfValue (JInt 5)) =
       Inl (TypeError (unsupported (JInt 5)))
   \<and> map_of [(lit ''file_name'', JStr commande), (lit ''ocr_contents'', JStr (lit ''Erreur OCR''))]
         (lit ''file_name'') = Some (JStr commande)
   \<and> map_of [(lit ''file_name'', JStr commande), (lit ''ocr_contents'', JStr (lit ''Erreur OCR''))]
         (lit ''ocr_contents'') = Some (JStr (lit ''Erreur OCR''))
   \<and> \<not> is_dict (JStr (lit ''Erreur OCR''))
   \<and> extract_dataframes_from_ocr_json as_given
        (OfValue (JDict [(lit ''file_name'', JStr commande),
                         (lit ''ocr_contents'', JStr (lit ''Erreur OCR''))])) =
       Inl (ValidationError not_a_dict)
   \<and> lit ''file_name'' \<notin> set (dict_keys [(lit ''ocr_contents'', JStr (lit ''Erreur OCR''))])
   \<and> extract_dataframes_from_ocr_json as_given
        (OfValue (JDict [(lit ''ocr_contents'', JStr (lit ''Erreur OCR''))])) =
       create_dataframe_from_extraction_result as_given
         \<lparr>pdf_file = lit ''document.pdf'', prompt_name = lit ''default'',
          extracted_data = JDict [(lit ''ocr_contents'', JStr (lit ''Erreur OCR''))]\<rparr>"
proof -
  let ?er = "\<lparr>pdf_file = commande, prompt_name = facture,
       extracted_data = JStr (lit ''Erreur OCR'')\<rparr>"
  let ?d = "[(lit ''file_name'', JStr commande), (lit ''ocr_contents'', JStr (lit ''Erreur OCR''))]"
  let ?d' = "[(lit ''ocr_contents'', JStr (lit ''Erreur OCR''))]"
  have ne: "lit ''ocr_contents'' \<noteq> lit ''file_name''" "lit ''file_name'' \<noteq> lit ''ocr_contents''"
    by (simp_all add: lit_def)
  have s: "is_str (extracted_data ?er)" by (simp add: is_str_def)
  have n5: "\<not> is_dict (JInt 5)" by (simp add: is_dict_def)
  have m1: "map_of ?d (lit ''file_name'') = Some (JStr commande)" by simp
  have m2: "map_of ?d (lit ''ocr_contents'') = Some (JStr (lit ''Erreur OCR''))"
    using ne by simp
  have ns: "\<not> is_dict (JStr (lit ''Erreur OCR''))" by (simp add: is_dict_def)
  have k: "lit ''file_name'' \<notin> set (dict_keys ?d')" using ne by (simp add: dict_keys_def)
  from placeholder_for_empty_or_string
    [of ?er as_given "JInt 5" ?d commande "JStr (lit ''Erreur OCR'')" ?d']
    s n5 m1 m2 ns k
  show ?thesis by blast
qed

text \<open>
  Claim C6 as stated fails: given an error string or a number,
  \<^verbatim>\<open>extract_dataframes_from_ocr_json\<close> raises \<^verbatim>\<open>TypeError\<close> (lines 223 to 225), and
  given a raw mapping whose \<^verbatim>\<open>ocr_contents\<close> is an error string, the construction of the
  \<^verbatim>\<open>ExtractionResult\<close> raises.
\<close>

theorem placeholder_counterexample:
  "extract_dataframes_from_ocr_json as_given (OfValue (JStr (lit ''Erreur OCR''))) =
     Inl (TypeError (unsupported (JStr (lit ''Erreur OCR''))))
   \<and> extract_dataframes_from_ocr_json as_given (OfValue (JInt 5)) =
       Inl (TypeError (unsupported (JInt 5)))
   \<and> extract_dataframes_from_ocr_json as_given
       (OfValue (JDict [(lit ''file_name'', JStr commande),
                        (lit ''ocr_contents'', JStr (lit ''Erreur OCR''))])) =
     Inl (ValidationError not_a_dict)"
proof -
  have ne: "lit ''ocr_contents'' \<noteq> lit ''file_name''" "lit ''file_name'' \<noteq> lit ''ocr_contents''"
    by (simp_all add: lit_def)
  show ?thesis using ne
    by (simp add: extract_dataframes_from_ocr_json_def is_dict_def items_of_def dict_keys_def
        new_ExtractionResult_def validate_str_def validate_dict_def)
qed

subsection \<open>A key that is the label of the general table\<close>

lemma project_items_append:
  "project_items pd dfs (xs @ ys) =
     (case project_items pd dfs xs of Inl e \<Rightarrow> Inl e | Inr d \<Rightarrow> project_items pd d ys)"
  by (induction xs arbitrary: dfs) (auto split: sum.splits)

lemma single_record_frame:
  assumes "frame_of_records pd [JDict r] = Inr df"
  shows "index_len df = 1 \<and> dict_keys (cols df) = first_appearance (dict_keys r)
     \<and> (\<forall>c \<in> set (dict_keys r). map_of (cols df) c = Some [map_of r c])"
proof -
  have "list_all is_dict [JDict r]" by (simp add: is_dict_def)
  from frame_of_records_props [OF assms this] show ?thesis
    by (simp add: items_of_def set_first_appearance convert_column_single)
qed

text \<open>
  Claim C10, as amended. Let the data hold a mapping under the label of the general table
  and, later, a key whose value is neither a mapping nor a list of records. Whenever the
  call returns, there is one table of that label; it has one row; the later key is a column
  of it, with its value as the cell; its columns are those of the mapping followed by the
  later keys of that kind not among them, in order; and a column of the mapping whose name
  no later key has keeps the mapping's value. A later key that has the name of a column of
  the mapping takes the place of that column.
\<close>

theorem label_not_reserved:
  assumes "extracted_data er = JDict (pre @ (general_label, JDict r) # rest)"
    and "distinct (dict_keys (pre @ (general_label, JDict r) # rest))"
    and "kv \<in> set rest" and "is_general kv"
    and "create_dataframe_from_extraction_result pd er = Inr tables"
  shows "\<exists>g. map_of tables general_label = Some g \<and> index_len g = 1
     \<and> map_of (cols g) (fst kv) = Some [Some (snd kv)]
     \<and> dict_keys (cols g) =
         foldl see (first_appearance (dict_keys r)) (dict_keys (filter is_general rest))
     \<and> (\<forall>c \<in> set (dict_keys r).
           c \<notin> set (dict_keys (filter is_general rest)) \<longrightarrow> map_of (cols g) c = Some [map_of r c])
     \<and> distinct (dict_keys tables)"
proof -
  let ?x = "(general_label, JDict r)"
  have run: "project_items pd [] (pre @ ?x # rest) = Inr tables"
    using create_of_dict [OF assms(1)] assms(5) by simp
  then obtain d1 where d1: "project_items pd [] pre = Inr d1"
    and run1: "project_items pd d1 (?x # rest) = Inr tables"
    by (auto simp: project_items_append split: sum.splits)
  from run1 obtain d2 where step: "project_item pd d1 ?x = Inr d2"
    and run2: "project_items pd d2 rest = Inr tables"
    by (auto split: sum.splits)
  have nx: "\<not> is_general ?x" by (simp add: is_general_def is_dict_def)
  from step nx obtain df where
    df: "frame_of_records pd [JDict r] = Inr df" "d2 = dict_set d1 general_label df"
    by (auto simp: project_item_record records_of_def is_record_list_def split: sum.splits)
  from single_record_frame [OF df(1)] have
    f1: "index_len df = 1" and fk: "dict_keys (cols df) = first_appearance (dict_keys r)"
    and fc: "\<forall>c \<in> set (dict_keys r). map_of (cols df) c = Some [map_of r c]" by simp_all
  have m2: "map_of d2 general_label = Some df" by (simp add: df(2) map_of_dict_set)
  then have ok2: "general_ok d2" and gc2: "general_cols d2 = cols df"
    using f1 by (simp_all add: general_ok_def general_cols_def)
  from assms(2) have dr: "distinct (dict_keys rest)" "general_label \<notin> set (dict_keys rest)"
    by (auto simp: dict_keys_def)
  from project_items_general [OF run2 ok2 dr(2)] gc2 have
    gok: "general_ok tables"
    and gcols: "general_cols tables = foldl set_cell (cols df) (filter is_general rest)"
    by simp_all
  have tk: "dict_keys tables = foldl see (dict_keys d2) (map table_name rest)"
    using project_items_keys [OF run2] .
  have "general_label \<in> set (dict_keys d2)"
    using m2 map_of_None_keys [of d2 general_label] by auto
  then have "general_label \<in> set (dict_keys tables)" using tk by (simp add: set_foldl_see)
  then obtain g where g: "map_of tables general_label = Some g"
    using map_of_None_keys [of tables general_label] by auto
  then have g1: "index_len g = 1" and gc: "cols g = foldl set_cell (cols df) (filter is_general rest)"
    using gok gcols by (simp_all add: general_ok_def general_cols_def)
  have dg: "distinct (dict_keys (filter is_general rest))"
    using dr(1) by (rule distinct_filter_keys)
  have mem: "kv \<in> set (filter is_general rest)" using assms(3,4) by simp
  have c1: "map_of (cols g) (fst kv) = Some [Some (snd kv)]"
    unfolding gc by (rule map_of_foldl_set_cell [OF dg mem])
  have c2: "dict_keys (cols g) =
         foldl see (first_appearance (dict_keys r)) (dict_keys (filter is_general rest))"
    unfolding gc by (simp add: keys_foldl_set_cell fk)
  have c3: "\<forall>c \<in> set (dict_keys r).
           c \<notin> set (dict_keys (filter is_general rest)) \<longrightarrow> map_of (cols g) c = Some [map_of r c]"
    unfolding gc using fc by (simp add: map_of_foldl_set_cell_other)
  have "distinct (foldl see (dict_keys ([] :: tables)) (map table_name (pre @ ?x # rest)))"
    by (rule distinct_foldl_see) (simp add: dict_keys_def)
  then have c4: "distinct (dict_keys tables)"
    unfolding project_items_keys [OF run] .
  from g g1 c1 c2 c3 c4 show ?thesis by blast
qed

lemma label_then_scalar_tables:
  "create_dataframe_from_extraction_result as_given (result_of label_then_scalar) =
     Inr [(general_label,
           \<lparr>index_len = 1,
            cols = [(lit ''Adresse'', [Some (JStr (lit ''Paris''))]),
                    (lit ''Client'', [Some (JStr (lit ''Acme''))])]\<rparr>)]"
proof -
  have ne: "lit ''Adresse'' \<noteq> lit ''Client''" "lit ''Client'' \<noteq> lit ''Adresse''"
    by (simp_all add: lit_def)
  show ?thesis using ne
    by (simp add: create_dataframe_from_extraction_result_def result_of_def
        label_then_scalar_def truthy_def is_str_def is_dict_def items_of_def project_item_def
        is_record_list_def dict_keys_def frame_setitem_def frame_of_records_def record_of_def
        convert_column_def first_appearance_def see_def Let_def)
qed

text \<open>The theorem at a mapping with one entry, followed by a scalar under another name.\<close>

theorem label_not_reserved_witness:
  "extracted_data (result_of label_then_scalar) =
     JDict ([] @ (general_label, JDict [(lit ''Adresse'', JStr (lit ''Paris''))])
              # [(lit ''Client'', JStr (lit ''Acme''))])
   \<and> distinct (dict_keys ([] @ (general_label, JDict [(lit ''Adresse'', JStr (lit ''Paris''))])
              # [(lit ''Client'', JStr (lit ''Acme''))]))
   \<and> is_general (lit ''Client'', JStr (lit ''Acme''))
   \<and> (\<exists>g. map_of [(general_label,
           \<lparr>index_len = 1,
            cols = [(lit ''Adresse'', [Some (JStr (lit ''Paris''))]),
                    (lit ''Client'', [Some (JStr (lit ''Acme''))])]\<rparr>)] general_label = Some g
         \<and> index_len g = 1
         \<and> map_of (cols g) (lit ''Client'') = Some [Some (JStr (lit ''Acme''))]
         \<and> dict_keys (cols g) = [lit ''Adresse'', lit ''Client''])"
proof -
  let ?r = "[(lit ''Adresse'', JStr (lit ''Paris''))]"
  let ?kv = "(lit ''Client'', JStr (lit ''Acme''))"
  have ne: "lit ''Adresse'' \<noteq> lit ''Client''" "lit ''Client'' \<noteq> lit ''Adresse''"
    by (simp_all add: lit_def)
  have h1: "extracted_data (result_of label_then_scalar) = JDict ([] @ (general_label, JDict ?r) # [?kv])"
    by (simp add: result_of_def label_then_scalar_def)
  have h2: "distinct (dict_keys ([] @ (general_label, JDict ?r) # [?kv]))"
    by (simp add: dict_keys_def general_label_neq)
  have h3: "?kv \<in> set [?kv]" by simp
  have h4: "is_general ?kv" by (simp add: is_general_def is_record_list_def is_dict_def)
  have k: "foldl see (first_appearance (dict_keys ?r)) (dict_keys (filter is_general [?kv]))
             = [lit ''Adresse'', lit ''Client'']"
    using ne h4 by (simp add: first_appearance_def see_def dict_keys_def)
  from label_not_reserved [OF h1 h2 h3 h4 label_then_scalar_tables] k
  have "\<exists>g. map_of [(general_label,
           \<lparr>index_len = 1,
            cols = [(lit ''Adresse'', [Some (JStr (lit ''Paris''))]),
                    (lit ''Client'', [Some (JStr (lit ''Acme''))])]\<rparr>)] general_label = Some g
         \<and> index_len g = 1
         \<and> map_of (cols g) (lit ''Client'') = Some [Some (JStr (lit ''Acme''))]
         \<and> dict_keys (cols g) = [lit ''Adresse'', lit ''Client'']"
    by auto
  with h1 h2 h4 show ?thesis by blast
qed

text \<open>
  Claim C10 as stated fails when the later key has the name of a key of the mapping: the
  table built from the mapping has the one column \<^verbatim>\<open>Client\<close>, and so has the table
  returned, where the scalar has replaced the value of the mapping. No column is added.
\<close>

theorem label_not_reserved_counterexample:
  "frame_of_records as_given [JDict [(lit ''Client'', JStr (lit ''Acme''))]] =
     Inr \<lparr>index_len = 1, cols = [(lit ''Client'', [Some (JStr (lit ''Acme''))])]\<rparr>
   \<and> create_dataframe_from_extraction_result as_given (result_of label_then_same_key) =
     Inr [(general_label,
           \<lparr>index_len = 1, cols = [(lit ''Client'', [Some (JStr (lit ''Durand''))])]\<rparr>)]"
  by (simp add: create_dataframe_from_extraction_result_def result_of_def
      label_then_same_key_def truthy_def is_str_def is_dict_def items_of_def project_item_def
      is_record_list_def dict_keys_def frame_setitem_def frame_of_records_def record_of_def
      convert_column_def first_appearance_def see_def Let_def)

section \<open>The construction of the models\<close>

text \<open>
  Claim C7, as amended. A \<^verbatim>\<open>PDFPage\<close> is constructed for every integer
  \<^verbatim>\<open>page_number\<close>, positive or not: the field is annotated \<^verbatim>\<open>int\<close> and has no
  constraint. The construction of a \<^verbatim>\<open>StructuredOCR\<close> fails with a validation error when
  \<^verbatim>\<open>ocr_contents\<close> is not a mapping and succeeds when it is one.
\<close>

theorem construction:
  "new_PDFPage n path = Inr \<lparr>page_number = n, image_path = path, ocr_data = None\<rparr>
   \<and> (\<not> is_dict v \<longrightarrow> new_StructuredOCR name v = Inl (ValidationError not_a_dict))
   \<and> (is_dict v \<longrightarrow> new_StructuredOCR name v = Inr \<lparr>file_name = name, ocr_contents = v\<rparr>)"
  by (cases v)
    (simp_all add: new_PDFPage_def new_StructuredOCR_def validate_dict_def is_dict_def)

text \<open>The theorem at a string and at a mapping.\<close>

theorem construction_witness:
  "\<not> is_dict (JStr (lit ''Total: 120''))
   \<and> new_StructuredOCR (lit ''page_001.jpeg'') (JStr (lit ''Total: 120'')) =
       Inl (ValidationError not_a_dict)
   \<and> is_dict (JDict [(lit ''Total'', JInt 120)])
   \<and> new_StructuredOCR (lit ''page_001.jpeg'') (JDict [(lit ''Total'', JInt 120)]) =
       Inr \<lparr>file_name = lit ''page_001.jpeg'', ocr_contents = JDict [(lit ''Total'', JInt 120)]\<rparr>"
proof -
  have a: "\<not> is_dict (JStr (lit ''Total: 120''))" by (simp add: is_dict_def)
  have b: "is_dict (JDict [(lit ''Total'', JInt 120)])" by (simp add: is_dict_def)
  from construction [of _ _ "JStr (lit ''Total: 120'')" "lit ''page_001.jpeg''"]
    construction [of _ _ "JDict [(lit ''Total'', JInt 120)]" "lit ''page_001.jpeg''"] a b
  show ?thesis by simp
qed

text \<open>Claim C7 as stated fails: pages numbered 0 and -3 are constructed.\<close>

theorem construction_counterexample:
  "(0 :: int) \<le> 0
   \<and> new_PDFPage 0 (lit ''page_000.jpeg'') =
       Inr \<lparr>page_number = 0, image_path = lit ''page_000.jpeg'', ocr_data = None\<rparr>
   \<and> (- 3 :: int) \<le> 0
   \<and> new_PDFPage (- 3) (lit ''page.jpeg'') =
       Inr \<lparr>page_number = - 3, image_path = lit ''page.jpeg'', ocr_data = None\<rparr>"
  by (simp add: new_PDFPage_def)

section \<open>The name of an exported file\<close>

lemma isalnum_space: "\<not> isalnum beyond 32"
  by (simp add: isalnum_def latin1_isalnum_def)

lemma separators: "c \<in> set (lit '' _-'') \<longleftrightarrow> c = 32 \<or> c = 95 \<or> c = 45"
  by (auto simp: lit_def)

lemma pieces_safe:
  "safe_name alnum_beyond lower_beyond pieces_designations =
     lit (''pi'' @ [CHR 0xE8] @ ''ces___d'' @ [CHR 0xE9] @ ''signations'')"
  by (simp add: safe_name_def pieces_designations_def lit_def lower_def replace_spaces_def
      isalnum_def latin1_isalnum_def latin1_lower_def)

text \<open>
  Claim C8. \<^verbatim>\<open>export_dataframe\<close> keeps the alphanumeric characters, spaces, hyphens and
  underscores of the name and puts an underscore for every other character, then puts an
  underscore for every space and lowers the result; in all, every character that is neither
  alphanumeric nor a hyphen becomes an underscore, and the rest is lowered. The table named
  \<^verbatim>\<open>Pieces / Designations\<close> (with its accents) is exported under a name made of lowercase
  letters and underscores only.
\<close>

theorem safe_name_rule:
  "safe_name alnum_beyond lower_beyond name =
     lower lower_beyond
       (replace_spaces
          (map (\<lambda>c. if isalnum alnum_beyond c \<or> c = 32 \<or> c = 45 \<or> c = 95 then c else 95) name))
   \<and> safe_name alnum_beyond lower_beyond name =
     lower lower_beyond
       (map (\<lambda>c. if isalnum alnum_beyond c \<or> c = 45 \<or> c = 95 then c else 95) name)
   \<and> safe_name alnum_beyond lower_beyond pieces_designations =
       lit (''pi'' @ [CHR 0xE8] @ ''ces___d'' @ [CHR 0xE9] @ ''signations'')
   \<and> list_all name_char (safe_name alnum_beyond lower_beyond pieces_designations)"
proof (intro conjI)
  show "safe_name alnum_beyond lower_beyond name =
     lower lower_beyond
       (replace_spaces
          (map (\<lambda>c. if isalnum alnum_beyond c \<or> c = 32 \<or> c = 45 \<or> c = 95 then c else 95) name))"
    by (auto simp: safe_name_def separators intro!: arg_cong [where f = "lower lower_beyond"]
        arg_cong [where f = replace_spaces])
  show "safe_name alnum_beyond lower_beyond name =
     lower lower_beyond
       (map (\<lambda>c. if isalnum alnum_beyond c \<or> c = 45 \<or> c = 95 then c else 95) name)"
    using isalnum_space [of alnum_beyond]
    by (auto simp: safe_name_def separators replace_spaces_def
        intro!: arg_cong [where f = "lower lower_beyond"])
  show "safe_name alnum_beyond lower_beyond pieces_designations =
       lit (''pi'' @ [CHR 0xE8] @ ''ces___d'' @ [CHR 0xE9] @ ''signations'')"
    by (rule pieces_safe)
  show "list_all name_char (safe_name alnum_beyond lower_beyond pieces_designations)"
    unfolding pieces_safe
    by (simp add: lit_def name_char_def lowercase_letter_def digit_def)
qed

section \<open>A prompt that does not exist\<close>

lemma lit_nonempty: "lit (c # s) \<noteq> []"
  by (simp add: lit_def)

lemma echo_path: "path_str echo_world (lit ''./prompt_extraction'') = lit ''prompt_extraction''"
  by (simp add: echo_world_def lit_def)

lemma extractor_loaded:
  "new_DataExtractor echo_world (lit ''./prompt_extraction'')
       (Some [(facture, lit ''Client, Total'')]) None =
     Inr extractor"
  by (simp add: new_DataExtractor_def load_prompts_def extractor_def)

lemma extractor_not_loaded:
  "new_DataExtractor echo_world (lit ''./prompt_extraction'') None None =
     Inl (FileNotFoundError (directory_missing (lit ''prompt_extraction'')))"
  by (simp add: new_DataExtractor_def load_prompts_def echo_path)

lemma extract_data_missing:
  "name \<notin> set (dict_keys (prompts self)) \<Longrightarrow>
     extract_data self h pdf_pages name file = Inl (ValueError (prompt_missing name))"
  by (simp add: extract_data_def)

lemma extract_data_other_error:
  assumes "name \<in> set (dict_keys (prompts self))"
    and "extract_data self h pdf_pages name file = Inl e"
  shows "\<exists>p. ocr_processor self = Some p \<and> p h pdf_pages name = Inl e"
proof (cases "ocr_processor self")
  case None
  then show ?thesis using assms by (simp add: extract_data_def)
next
  case (Some p)
  then have "p h pdf_pages name = Inl e" using assms
    by (auto simp: extract_data_def split: sum.splits prod.splits processed.splits)
  then show ?thesis using Some by simp
qed

lemma missing_prompt_text:
  "prompt_files w name = None \<Longrightarrow> fields_extraction_text w self name = Inr []"
  by (simp add: fields_extraction_text_def get_extraction_prompt_def)

lemma structured_ocr_missing_prompt:
  "prompt_files w name = None \<Longrightarrow>
     structured_ocr w self h path (Some name) = structured_ocr w self h path None"
  by (auto simp: structured_ocr_def missing_prompt_text split: sum.splits)

lemma process_each_missing_prompt:
  "prompt_files w name = None \<Longrightarrow>
     process_each w self h pages (Some name) = process_each w self h pages None"
  by (induction pages arbitrary: h)
    (auto simp: structured_ocr_missing_prompt split: sum.splits prod.splits)

lemma individually_missing_prompt:
  "prompt_files w name = None \<Longrightarrow>
     individually w self h pages (Some name) = individually w self h pages None"
  by (simp add: individually_def process_each_missing_prompt)

text \<open>
  Claim C9, as amended. \<^verbatim>\<open>extract_data\<close> raises \<^verbatim>\<open>ValueError\<close> with a message naming
  the prompt when the name is not among the prompts it has loaded, whatever the pages and
  the processor; for a loaded name, an exception it raises is one the processor raised.
  \<^verbatim>\<open>get_extraction_prompt\<close> raises \<^verbatim>\<open>FileNotFoundError\<close> naming the prompt when its file
  is missing, but the callers in \<^verbatim>\<open>OCRProcessor\<close> catch it. The instruction text is then
  empty; \<^verbatim>\<open>structured_ocr\<close> and the page-by-page processing do exactly what they do when
  no prompt is named; and \<^verbatim>\<open>process_pdf_pages\<close>, for pages and a non-empty name, sends the
  request for the whole document with an empty instruction text, returns the combined
  record when that call returns, and processes the pages one by one when it raises.
\<close>

theorem missing_prompt:
  "(name \<notin> set (dict_keys (prompts self)) \<longrightarrow>
      extract_data self h pdf_pages name doc = Inl (ValueError (prompt_missing name)))
   \<and> (name \<in> set (dict_keys (prompts self)) \<and> extract_data self h pdf_pages name doc = Inl e \<longrightarrow>
        (\<exists>p. ocr_processor self = Some p \<and> p h pdf_pages name = Inl e))
   \<and> (prompt_files w name = None \<longrightarrow>
        get_extraction_prompt w proc name =
          Inl (FileNotFoundError
                 (extraction_prompt_missing name (path_str w (prompt_dir proc))))
        \<and> fields_extraction_text w proc name = Inr []
        \<and> structured_ocr w proc h path (Some name) = structured_ocr w proc h path None
        \<and> individually w proc h pdf_pages (Some name) = individually w proc h pdf_pages None
        \<and> process_pdf_pages w proc h [] (Some name) = Inr (h, [], Pages [])
        \<and> (name \<noteq> [] \<longrightarrow>
             process_pdf_pages w proc h (first # others) (Some name) =
               (case
                  (case read_base64 w (image_path first) of
                     Inl e \<Rightarrow> Inl e
                   | Inr encoded \<Rightarrow>
                       chat_parse w h (data_url encoded)
                         (document_request
                            (join [10, 10] (page_markdowns w (first # others))) []))
                of
                  Inl e \<Rightarrow> individually w proc h (first # others) None
                | Inr (h', result) \<Rightarrow>
                    Inr (h', first\<lparr>ocr_data := Some result\<rparr> # others, Combined result))))"
proof (intro conjI impI)
  assume "name \<notin> set (dict_keys (prompts self))"
  then show "extract_data self h pdf_pages name doc = Inl (ValueError (prompt_missing name))"
    by (rule extract_data_missing)
next
  assume "name \<in> set (dict_keys (prompts self)) \<and> extract_data self h pdf_pages name doc = Inl e"
  then show "\<exists>p. ocr_processor self = Some p \<and> p h pdf_pages name = Inl e"
    using extract_data_other_error by blast
next
  assume m: "prompt_files w name = None"
  then show "get_extraction_prompt w proc name =
          Inl (FileNotFoundError
                 (extraction_prompt_missing name (path_str w (prompt_dir proc))))"
    by (simp add: get_extraction_prompt_def)
  from m show "fields_extraction_text w proc name = Inr []" by (rule missing_prompt_text)
  from m show "structured_ocr w proc h path (Some name) = structured_ocr w proc h path None"
    by (rule structured_ocr_missing_prompt)
  from m show "individually w proc h pdf_pages (Some name) = individually w proc h pdf_pages None"
    by (rule individually_missing_prompt)
  show "process_pdf_pages w proc h [] (Some name) = Inr (h, [], Pages [])"
    by (simp add: process_pdf_pages_def)
next
  assume m: "prompt_files w name = None" and n: "name \<noteq> []"
  show "process_pdf_pages w proc h (first # others) (Some name) =
               (case
                  (case read_base64 w (image_path first) of
                     Inl e \<Rightarrow> Inl e
                   | Inr encoded \<Rightarrow>
                       chat_parse w h (data_url encoded)
                         (document_request
                            (join [10, 10] (page_markdowns w (first # others))) []))
                of
                  Inl e \<Rightarrow> individually w proc h (first # others) None
                | Inr (h', result) \<Rightarrow>
                    Inr (h', first\<lparr>ocr_data := Some result\<rparr> # others, Combined result))"
    using n unfolding individually_missing_prompt [OF m, symmetric]
    by (simp add: process_pdf_pages_def missing_prompt_text [OF m] Let_def
        del: page_markdowns.simps)
qed

lemma echo_structured_ocr:
  "structured_ocr echo_world ocr [] (lit ''page_001.jpeg'') (Some facture) =
     Inr ([], \<lparr>file_name = lit ''facture'',
               ocr_contents = [(lit ''request'', PStr (image_request (lit ''# Facture'') []))]\<rparr>)"
  by (simp add: structured_ocr_def echo_world_def missing_prompt_text facture_def lit_nonempty)

text \<open>
  The theorem at a name that is not loaded and at a prompt whose file is missing, for one
  image and for a document of one page.
\<close>

theorem missing_prompt_witness:
  "lit ''devis'' \<notin> set (dict_keys (prompts extractor))
   \<and> extract_data extractor [] [blank_page] (lit ''devis'') commande =
       Inl (ValueError (prompt_missing (lit ''devis'')))
   \<and> prompt_files echo_world facture = None
   \<and> get_extraction_prompt echo_world ocr facture =
       Inl (FileNotFoundError (extraction_prompt_missing facture (lit ''prompt_extraction'')))
   \<and> structured_ocr echo_world ocr [] (lit ''page_001.jpeg'') (Some facture) =
       structured_ocr echo_world ocr [] (lit ''page_001.jpeg'') None
   \<and> facture \<noteq> []
   \<and> process_pdf_pages echo_world ocr [] [blank_page] (Some facture) =
       Inr ([],
            [blank_page\<lparr>ocr_data := Some \<lparr>file_name = lit ''facture'',
                 ocr_contents =
                   [(lit ''request'',
                     PStr (document_request
                            (lit ''=== Page '' @ str_int 1 @ lit '' ==='' @ [10] @ lit ''# Facture'')
                            []))]\<rparr>\<rparr>],
            Combined \<lparr>file_name = lit ''facture'',
                 ocr_contents =
                   [(lit ''request'',
                     PStr (document_request
                            (lit ''=== Page '' @ str_int 1 @ lit '' ==='' @ [10] @ lit ''# Facture'')
                            []))]\<rparr>)"
proof -
  have a: "lit ''devis'' \<notin> set (dict_keys (prompts extractor))"
    by (simp add: extractor_def dict_keys_def facture_def lit_def)
  have b: "prompt_files echo_world facture = None" by (simp add: echo_world_def)
  have n: "facture \<noteq> []" by (simp add: facture_def lit_nonempty)
  from missing_prompt [where name = "lit ''devis''" and self = extractor and h = "[]"
      and pdf_pages = "[blank_page]" and doc = commande]
  have c: "extract_data extractor [] [blank_page] (lit ''devis'') commande =
       Inl (ValueError (prompt_missing (lit ''devis'')))"
    using a by blast
  note at_echo = missing_prompt [where name = facture and w = echo_world and proc = ocr
      and h = "[]" and path = "lit ''page_001.jpeg''" and first = blank_page and others = "[]"]
  from at_echo b
  have d: "get_extraction_prompt echo_world ocr facture =
       Inl (FileNotFoundError
              (extraction_prompt_missing facture (path_str echo_world (prompt_dir ocr))))"
    "structured_ocr echo_world ocr [] (lit ''page_001.jpeg'') (Some facture) =
       structured_ocr echo_world ocr [] (lit ''page_001.jpeg'') None"
    by blast+
  from at_echo b n
  have "process_pdf_pages echo_world ocr [] [blank_page] (Some facture) =
               (case
                  (case read_base64 echo_world (image_path blank_page) of
                     Inl e \<Rightarrow> Inl e
                   | Inr encoded \<Rightarrow>
                       chat_parse echo_world [] (data_url encoded)
                         (document_request
                            (join [10, 10] (page_markdowns echo_world [blank_page])) []))
                of
                  Inl e \<Rightarrow> individually echo_world ocr [] [blank_page] None
                | Inr (h', result) \<Rightarrow>
                    Inr (h', blank_page\<lparr>ocr_data := Some result\<rparr> # [], Combined result))"
    by blast
  then have e: "process_pdf_pages echo_world ocr [] [blank_page] (Some facture) =
       Inr ([],
            [blank_page\<lparr>ocr_data := Some \<lparr>file_name = lit ''facture'',
                 ocr_contents =
                   [(lit ''request'',
                     PStr (document_request
                            (lit ''=== Page '' @ str_int 1 @ lit '' ==='' @ [10] @ lit ''# Facture'')
                            []))]\<rparr>\<rparr>],
            Combined \<lparr>file_name = lit ''facture'',
                 ocr_contents =
                   [(lit ''request'',
                     PStr (document_request
                            (lit ''=== Page '' @ str_int 1 @ lit '' ==='' @ [10] @ lit ''# Facture'')
                            []))]\<rparr>)"
    by (simp add: echo_world_def blank_page_def)
  from d(1) have d1: "get_extraction_prompt echo_world ocr facture =
       Inl (FileNotFoundError (extraction_prompt_missing facture (lit ''prompt_extraction'')))"
    by (simp add: ocr_def echo_path)
  from a b c d1 d(2) n e show ?thesis by simp
qed

text \<open>
  Claim C9 as stated fails: with the prompt file missing, \<^verbatim>\<open>structured_ocr\<close> returns a
  record, and so does \<^verbatim>\<open>extract_data\<close> for a prompt it has loaded, through
  \<^verbatim>\<open>process_pdf_pages\<close>; the request sent ends with an empty instruction text.
\<close>

theorem missing_prompt_counterexample:
  "prompt_files echo_world facture = None
   \<and> structured_ocr echo_world ocr [] (lit ''page_001.jpeg'') (Some facture) =
       Inr ([], \<lparr>file_name = lit ''facture'',
                 ocr_contents = [(lit ''request'', PStr (image_request (lit ''# Facture'') []))]\<rparr>)
   \<and> facture \<in> set (dict_keys (prompts (extractor\<lparr>ocr_processor := Some (processor_of echo_world ocr)\<rparr>)))
   \<and> extract_data (extractor\<lparr>ocr_processor := Some (processor_of echo_world ocr)\<rparr>) []
         [blank_page] facture commande =
       Inr ([],
            [blank_page\<lparr>ocr_data := Some \<lparr>file_name = lit ''facture'',
                 ocr_contents =
                   [(lit ''request'',
                     PStr (document_request
                            (lit ''=== Page '' @ str_int 1 @ lit '' ==='' @ [10] @ lit ''# Facture'')
                            []))]\<rparr>\<rparr>],
            \<lparr>pdf_file = commande, prompt_name = facture,
             extracted_data =
               [(lit ''request'',
                 PStr (document_request
                        (lit ''=== Page '' @ str_int 1 @ lit '' ==='' @ [10] @ lit ''# Facture'')
                        []))]\<rparr>)"
proof -
  have a: "prompt_files echo_world facture = None" by (simp add: echo_world_def)
  have n: "facture \<noteq> []" by (simp add: facture_def lit_nonempty)
  have p: "process_pdf_pages echo_world ocr [] [blank_page] (Some facture) =
       Inr ([],
            [blank_page\<lparr>ocr_data := Some \<lparr>file_name = lit ''facture'',
                 ocr_contents =
                   [(lit ''request'',
                     PStr (document_request
                            (lit ''=== Page '' @ str_int 1 @ lit '' ==='' @ [10] @ lit ''# Facture'')
                            []))]\<rparr>\<rparr>],
            Combined \<lparr>file_name = lit ''facture'',
                 ocr_contents =
                   [(lit ''request'',
                     PStr (document_request
                            (lit ''=== Page '' @ str_int 1 @ lit '' ==='' @ [10] @ lit ''# Facture'')
                            []))]\<rparr>)"
    using n by (simp add: process_pdf_pages_def missing_prompt_text [OF a] Let_def)
      (simp add: echo_world_def blank_page_def)
  have e: "extract_data (extractor\<lparr>ocr_processor := Some (processor_of echo_world ocr)\<rparr>) []
         [blank_page] facture commande =
       Inr ([],
            [blank_page\<lparr>ocr_data := Some \<lparr>file_name = lit ''facture'',
                 ocr_contents =
                   [(lit ''request'',
                     PStr (document_request
                            (lit ''=== Page '' @ str_int 1 @ lit '' ==='' @ [10] @ lit ''# Facture'')
                            []))]\<rparr>\<rparr>],
            \<lparr>pdf_file = commande, prompt_name = facture,
             extracted_data =
               [(lit ''request'',
                 PStr (document_request
                        (lit ''=== Page '' @ str_int 1 @ lit '' ==='' @ [10] @ lit ''# Facture'')
                        []))]\<rparr>)"
    by (simp add: extract_data_def extractor_def dict_keys_def processor_of_def p)
  have k: "facture \<in> set (dict_keys (prompts (extractor\<lparr>ocr_processor := Some (processor_of echo_world ocr)\<rparr>)))"
    by (simp add: extractor_def dict_keys_def)
  from a echo_structured_ocr k e show ?thesis by simp
qed

end
